theory Spec2Isabelle
  imports Complex_Main "HOL-Library.Option_ord" "HOL-Library.List_Lexorder" "HOL-Library.Char_ord"
begin

section \<open>Offset search: \<open>normalizeSeries\<close> and \<open>findBestOffset\<close>\<close>

text \<open>
  The alignment helpers of the Electron main process work on JavaScript numbers.
  They are modelled over the reals: a finite double is read as the real it denotes and
  rounding (including the single-precision storage of the normalised series in a
  \<open>Float32Array\<close>) is idealised away.  The only non-finite number the search
  produces is \<open>-Infinity\<close>, the score of a candidate without overlap; a score is
  therefore a \<open>real option\<close> whose \<open>None\<close> is \<open>-Infinity\<close>.  The order on
  \<open>option\<close> puts \<open>None\<close> strictly below every \<open>Some x\<close>, which is how
  \<open>-Infinity\<close> compares with every finite number.
\<close>

type_synonym score = "real option"

record OffsetResult =
  offsetMs :: real
  score :: score

text \<open>\<open>const ALIGN_MAX_OFFSET_MS = 15 * 60 * 1000\<close>\<close>

definition ALIGN_MAX_OFFSET_MS :: real where
  "ALIGN_MAX_OFFSET_MS = 15 * 60 * 1000"

text \<open>
  \<open>normalizeSeries\<close>: \<open>n = values.length || 1\<close>, the mean, the mean squared
  deviation, \<open>std = Math.max(Math.sqrt(varSum), 1e-6)\<close> and the z-scores.  Only the
  \<open>data\<close> field of the result is used by the caller.
\<close>

definition normalizeSeries :: "real list \<Rightarrow> real list" where
  "normalizeSeries values =
     (let n = (if length values = 0 then 1 else real (length values));
          mean = sum_list values / n;
          varSum = sum_list (map (\<lambda>b. (b - mean)\<^sup>2) values) / n;
          std = max (sqrt varSum) (1 / 1000000)
      in map (\<lambda>v. (v - mean) / std) values)"

text \<open>
  One iteration of the search loop, up to the comparison with \<open>best\<close>:
  \<open>aStart = max(0, -step)\<close>, \<open>bStart = max(0, step)\<close>,
  \<open>len = min(aNorm.length - aStart, bNorm.length - bStart)\<close> (which may be negative),
  the inner loop summing the products, and
  \<open>score = count > 0 ? sum / count : -Infinity\<close>.
\<close>

definition overlapLen :: "real list \<Rightarrow> real list \<Rightarrow> int \<Rightarrow> int" where
  "overlapLen aNorm bNorm step =
     min (int (length aNorm) - max 0 (- step)) (int (length bNorm) - max 0 step)"

definition stepScore :: "real list \<Rightarrow> real list \<Rightarrow> int \<Rightarrow> score" where
  "stepScore aNorm bNorm step =
     (let aStart = nat (max 0 (- step));
          bStart = nat (max 0 step);
          len = overlapLen aNorm bNorm step;
          sum = sum_list (map (\<lambda>i. aNorm ! (aStart + i) * bNorm ! (bStart + i)) [0..<nat len]);
          count = len
      in if count > 0 then Some (sum / real_of_int count) else None)"

text \<open>
  The body of the \<open>for\<close> loop as a state update on \<open>best\<close>: only a strictly greater
  score replaces it.
\<close>

definition advanceBest :: "real list \<Rightarrow> real list \<Rightarrow> real \<Rightarrow> OffsetResult \<Rightarrow> int \<Rightarrow> OffsetResult" where
  "advanceBest aNorm bNorm hopMs best step =
     (let sc = stepScore aNorm bNorm step
      in if sc > score best then \<lparr>offsetMs = real_of_int step * hopMs, score = sc\<rparr> else best)"

text \<open>\<open>for (let step = -maxSteps; step <= maxSteps; step++)\<close>\<close>

function searchLoop ::
  "real list \<Rightarrow> real list \<Rightarrow> real \<Rightarrow> int \<Rightarrow> int \<Rightarrow> OffsetResult \<Rightarrow> OffsetResult" where
  "searchLoop aNorm bNorm hopMs maxSteps step best =
     (if step \<le> maxSteps
      then searchLoop aNorm bNorm hopMs maxSteps (step + 1) (advanceBest aNorm bNorm hopMs best step)
      else best)"
  by pat_completeness auto
termination
  by (relation "measure (\<lambda>(aNorm, bNorm, hopMs, maxSteps, step, best). nat (maxSteps - step + 1))") auto

declare searchLoop.simps [simp del]

text \<open>
  \<open>findBestOffset\<close>.  With \<open>hopMs = 0\<close> the quotient \<open>ALIGN_MAX_OFFSET_MS / hopMs\<close>
  is \<open>Infinity\<close> in JavaScript, the loop counter starts at \<open>-Infinity\<close> and
  \<open>step++\<close> never changes it: the call does not return, which is the value \<open>None\<close>
  here.  For every other hop the bound is \<open>Math.floor\<close> of the quotient; a negative
  hop gives an empty range of steps.  The step counter is an exact integer, as a double
  is up to \<open>2^53\<close>, far above the 9000 steps of the hop of 100 ms that the handler uses.
\<close>

definition maxStepsOf :: "real \<Rightarrow> int" where
  "maxStepsOf hopMs = \<lfloor>ALIGN_MAX_OFFSET_MS / hopMs\<rfloor>"

definition findBestOffset :: "real list \<Rightarrow> real list \<Rightarrow> real \<Rightarrow> OffsetResult option" where
  "findBestOffset a b hopMs =
     (if hopMs = 0 then None
      else
        let aNorm = normalizeSeries a;
            bNorm = normalizeSeries b;
            maxSteps = maxStepsOf hopMs;
            best = \<lparr>offsetMs = 0, score = None\<rparr>
        in Some (searchLoop aNorm bNorm hopMs maxSteps (- maxSteps) best))"

section \<open>Subtitle-slot fitter: \<open>ensureClipFitsSubtitleSlot\<close>\<close>

text \<open>
  The fitter awaits three capabilities: the duration query of the preload API and the
  two injected callbacks \<open>onInvalidDuration\<close> and \<open>saveToFile\<close>.  An awaited
  promise resolves with a value of its declared type, rejects, or never settles.  A
  rejection leaves the \<open>async\<close> function at once and rejects its own promise; behind
  a promise that never settles the function never resumes, and its own promise never
  settles either.
\<close>

datatype 'a promise = Rejects string | Resolves 'a | Pending

text \<open>How an \<open>await\<close> can end the function early.\<close>

datatype stopped = Rejected string | Suspended

text \<open>\<open>{ duration?: number; error?: string }\<close>\<close>

record DurationResult =
  duration :: "real option"
  durationError :: "string option"

text \<open>\<open>interface SaveResult { success?: boolean; path?: string; error?: string }\<close>\<close>

record SaveResult =
  saveSuccess :: "bool option"
  savePath :: "string option"
  saveError :: "string option"

text \<open>The fields of \<open>TTSService\<close> that are strings, and the optional speed factor.\<close>

record TTSService =
  serviceId :: string
  serviceName :: string
  serviceType :: string
  voiceId :: string
  voiceName :: string
  speedFactor :: "real option"

record Subtitle =
  subtitleId :: nat
  startTime :: real
  endTime :: real
  subtitleText :: string

text \<open>
  \<open>EnsureClipFitsSubtitleSlotOptions\<close>.  The optional \<open>onAdjustingSpeed\<close> returns
  nothing, so only its presence is recorded; the optional \<open>onInvalidDuration\<close> takes
  no argument, so it is the outcome of its promise.
\<close>

record EnsureClipFitsSubtitleSlotOptions =
  baseClipPath :: string
  subtitle :: Subtitle
  baseSpeed :: real
  cacheKey :: string
  cacheDir :: string
  textForTts :: string
  hashKey :: "string \<Rightarrow> string"
  defaultService :: TTSService
  saveToFile :: "string \<Rightarrow> string \<Rightarrow> TTSService \<Rightarrow> SaveResult promise"
  onAdjustingSpeed :: bool
  onInvalidDuration :: "string promise option"

text \<open>
  What the renderer process supplies besides the options: the duration query
  \<open>window.electronAPI.system.getAudioDuration\<close>, whose answer may depend on how many
  queries were made before, the conversion of a number to text inside a template
  literal, and the arithmetic of doubles.  A finite double is the real it denotes; an
  arithmetic operation is the exact operation followed by rounding to a double, and a
  decimal literal such as \<open>1.02\<close> is the rounding of its decimal value.  The rounding
  function is a parameter: what is proved of the fitter holds whatever it is.  The
  integers 1, 4 and 1000 are doubles; \<open>Math.max\<close>, \<open>Math.min\<close> and the comparisons
  are exact.  \<open>Infinity\<close> and \<open>NaN\<close> are outside the model.
\<close>

record fitter_env =
  getAudioDuration :: "nat \<Rightarrow> string \<Rightarrow> DurationResult promise"
  numberToString :: "real \<Rightarrow> string"
  roundDouble :: "real \<Rightarrow> real"

text \<open>The calls the fitter makes, in order.\<close>

datatype fit_event =
    QueryDuration string
  | InvokeOnInvalidDuration
  | InvokeOnAdjustingSpeed
  | CallSaveToFile string string TTSService

fun isSaveCall :: "fit_event \<Rightarrow> bool" where
  "isSaveCall (CallSaveToFile t p s) = True"
| "isSaveCall e = False"

fun isRecoveryCall :: "fit_event \<Rightarrow> bool" where
  "isRecoveryCall InvokeOnInvalidDuration = True"
| "isRecoveryCall e = False"

text \<open>JavaScript truthiness of an optional string and of an optional number.\<close>

definition truthyString :: "string option \<Rightarrow> bool" where
  "truthyString s = (case s of None \<Rightarrow> False | Some t \<Rightarrow> t \<noteq> [])"

definition truthyNumber :: "real option \<Rightarrow> bool" where
  "truthyNumber x = (case x of None \<Rightarrow> False | Some v \<Rightarrow> v \<noteq> 0)"

text \<open>
  Lines 36 to 45: the first query and, when it reports an error and a recovery callback
  was supplied, the callback and the second query.  The result is the pair
  \<open>(finalPath, durationResult)\<close> as it stands at line 46, or how the function
  stopped before.
\<close>

definition measureClip ::
  "fitter_env \<Rightarrow> EnsureClipFitsSubtitleSlotOptions
     \<Rightarrow> (stopped + string \<times> DurationResult) \<times> fit_event list" where
  "measureClip env opts =
     (let finalPath = baseClipPath opts;
          ev1 = [QueryDuration finalPath]
      in case getAudioDuration env 0 finalPath of
           Rejects m \<Rightarrow> (Inl (Rejected m), ev1)
         | Pending \<Rightarrow> (Inl Suspended, ev1)
         | Resolves durationResult \<Rightarrow>
             (if truthyString (durationError durationResult) \<and> onInvalidDuration opts \<noteq> None
              then
                (let ev2 = ev1 @ [InvokeOnInvalidDuration]
                 in case onInvalidDuration opts of
                      None \<Rightarrow> (Inr (finalPath, durationResult), ev1)
                    | Some (Rejects m) \<Rightarrow> (Inl (Rejected m), ev2)
                    | Some Pending \<Rightarrow> (Inl Suspended, ev2)
                    | Some (Resolves refreshedPath) \<Rightarrow>
                        (if refreshedPath \<noteq> []
                         then
                           (let ev3 = ev2 @ [QueryDuration refreshedPath]
                            in case getAudioDuration env 1 refreshedPath of
                                 Rejects m \<Rightarrow> (Inl (Rejected m), ev3)
                               | Pending \<Rightarrow> (Inl Suspended, ev3)
                               | Resolves durationResult' \<Rightarrow>
                                   (Inr (refreshedPath, durationResult'), ev3))
                         else (Inr (finalPath, durationResult), ev2)))
              else (Inr (finalPath, durationResult), ev1)))"

text \<open>
  Lines 47 to 72, from the measured clip on: the conversion to milliseconds, the slot,
  the ratio and the tolerance test, the needed speed and the speed test, the path of the
  faster clip and the single call of \<open>saveToFile\<close>.
\<close>

definition fitMeasured ::
  "fitter_env \<Rightarrow> EnsureClipFitsSubtitleSlotOptions \<Rightarrow> string \<Rightarrow> DurationResult
     \<Rightarrow> string promise \<times> fit_event list" where
  "fitMeasured env opts finalPath durationResult =
     (let durationMs =
            (if truthyNumber (duration durationResult)
             then map_option (\<lambda>d. roundDouble env (d * 1000)) (duration durationResult)
             else None)
      in case durationMs of
           None \<Rightarrow> (Resolves finalPath, [])
         | Some ms \<Rightarrow>
             (if ms = 0 then (Resolves finalPath, [])
              else
                let slotMs = max 1 (roundDouble env
                                      (endTime (subtitle opts) - startTime (subtitle opts)));
                    ratio = roundDouble env (ms / slotMs)
                in if ratio \<le> roundDouble env (102 / 100) then (Resolves finalPath, [])
                   else
                     let neededSpeed = min (roundDouble env (baseSpeed opts * ratio)) 4
                     in if neededSpeed
                             \<le> roundDouble env (baseSpeed opts + roundDouble env (1 / 100))
                        then (Resolves finalPath, [])
                        else
                          let ev1 = (if onAdjustingSpeed opts then [InvokeOnAdjustingSpeed] else []);
                              hash = hashKey opts
                                       (cacheKey opts @ ''|speed|'' @ numberToString env neededSpeed);
                              targetPath = cacheDir opts @ ''/'' @ hash @ ''.mp3'';
                              service = (defaultService opts)\<lparr>speedFactor := Some neededSpeed\<rparr>;
                              ev2 = ev1 @ [CallSaveToFile (textForTts opts) targetPath service]
                          in case saveToFile opts (textForTts opts) targetPath service of
                               Rejects m \<Rightarrow> (Rejects m, ev2)
                             | Pending \<Rightarrow> (Pending, ev2)
                             | Resolves fasterResult \<Rightarrow>
                                 (if \<not> truthyString (saveError fasterResult)
                                     \<and> truthyString (savePath fasterResult)
                                  then (case savePath fasterResult of
                                          Some p \<Rightarrow> (Resolves p, ev2)
                                        | None \<Rightarrow> (Resolves finalPath, ev2))
                                  else (Resolves finalPath, ev2))))"

definition ensureClipFitsSubtitleSlot ::
  "fitter_env \<Rightarrow> EnsureClipFitsSubtitleSlotOptions \<Rightarrow> string promise \<times> fit_event list" where
  "ensureClipFitsSubtitleSlot env opts =
     (case measureClip env opts of
        (Inl (Rejected m), evs) \<Rightarrow> (Rejects m, evs)
      | (Inl Suspended, evs) \<Rightarrow> (Pending, evs)
      | (Inr (finalPath, durationResult), evs) \<Rightarrow>
          (let (res, evs') = fitMeasured env opts finalPath durationResult
           in (res, evs @ evs')))"

subsection \<open>A stubbed scenario\<close>

text \<open>
  Test doubles.  The rounding of the stub is IEEE rounding to the nearest double on the
  values that the scenarios compute: the literals \<open>1.02\<close> and \<open>0.01\<close>, the sums
  \<open>1 + 0.01\<close> and \<open>4 + 0.01\<close> and the product \<open>1.02 * 1000\<close> are rounded, every
  other intermediate value of the scenarios is a double.
\<close>

definition stubRound :: "real \<Rightarrow> real" where
  "stubRound x =
     (if x = 102 / 100 then 2296835809958953 / 2251799813685248
      else if x = 1 / 100 then 5764607523034235 / 576460752303423488
      else if x = 1 + 5764607523034235 / 576460752303423488
      then 4548635623644201 / 4503599627370496
      else if x = 4 + 5764607523034235 / 576460752303423488
      then 2257429313219461 / 562949953421312
      else if x = 2296835809958953 / 2251799813685248 * 1000 then 1020
      else x)"

text \<open>
  Every file lasts \<open>d\<close> seconds and the query never reports an error; the subtitle slot
  is one second long, the base speed is 1, no callback is supplied and the synthesis
  answers with an error.
\<close>

definition stubFitterEnv :: "real \<Rightarrow> fitter_env" where
  "stubFitterEnv d =
     \<lparr>getAudioDuration = (\<lambda>n p. Resolves \<lparr>duration = Some d, durationError = None\<rparr>),
      numberToString = (\<lambda>x. ''n''),
      roundDouble = stubRound\<rparr>"

definition stubService :: TTSService where
  "stubService =
     \<lparr>serviceId = ''s1'', serviceName = ''stub'', serviceType = ''azure'', voiceId = ''v1'',
      voiceName = ''voice'', speedFactor = Some 1\<rparr>"

definition stubOptions :: EnsureClipFitsSubtitleSlotOptions where
  "stubOptions =
     \<lparr>baseClipPath = ''/cache/base.mp3'',
      subtitle = \<lparr>subtitleId = 1, startTime = 0, endTime = 1000, subtitleText = ''hello''\<rparr>,
      baseSpeed = 1,
      cacheKey = ''s1|hello'',
      cacheDir = ''/cache'',
      textForTts = ''hello'',
      hashKey = (\<lambda>k. ''h''),
      defaultService = stubService,
      saveToFile = (\<lambda>t p svc. Resolves \<lparr>saveSuccess = None, savePath = None,
                                          saveError = Some ''quota exceeded''\<rparr>),
      onAdjustingSpeed = False,
      onInvalidDuration = None\<rparr>"

text \<open>The same options with a synthesis whose promise rejects.\<close>

definition rejectingOptions :: EnsureClipFitsSubtitleSlotOptions where
  "rejectingOptions = stubOptions\<lparr>saveToFile := (\<lambda>t p svc. Rejects ''connection lost'')\<rparr>"

text \<open>The same options with a synthesis that writes the file it was asked for.\<close>

definition succeedingOptions :: EnsureClipFitsSubtitleSlotOptions where
  "succeedingOptions =
     stubOptions\<lparr>saveToFile := (\<lambda>t p svc. Resolves \<lparr>saveSuccess = Some True, savePath = Some p,
                                                     saveError = None\<rparr>)\<rparr>"

text \<open>The same options with a base speed of 4.\<close>

definition fastOptions :: EnsureClipFitsSubtitleSlotOptions where
  "fastOptions = stubOptions\<lparr>baseSpeed := 4\<rparr>"

text \<open>The same options with a recovery callback that supplies a fresh clip.\<close>

definition callbackOptions :: EnsureClipFitsSubtitleSlotOptions where
  "callbackOptions = stubOptions\<lparr>onInvalidDuration := Some (Resolves ''/cache/fresh.mp3'')\<rparr>"

text \<open>
  A query that answers the first call with an error and every later call with a
  duration of one second.
\<close>

definition failingQueryEnv :: fitter_env where
  "failingQueryEnv =
     \<lparr>getAudioDuration =
        (\<lambda>n p. if n = 0 then Resolves \<lparr>duration = None, durationError = Some ''no such file''\<rparr>
               else Resolves \<lparr>duration = Some 1, durationError = None\<rparr>),
      numberToString = (\<lambda>x. ''n''),
      roundDouble = stubRound\<rparr>"

section \<open>Alignment orchestrator: the \<open>alignment:run\<close> handler\<close>

subsection \<open>Paths\<close>

text \<open>
  The functions of Node's \<open>path\<close> module that the handler uses, for absolute,
  normalised POSIX paths without a trailing separator (the form \<open>mkdtempSync\<close> and
  \<open>path.resolve\<close> return): joining inserts one separator, the directory name is what
  precedes the last separator, the base name what follows it, and the extension starts
  at the last dot of the base name unless that dot is its first character.
\<close>

definition path_join :: "string \<Rightarrow> string \<Rightarrow> string" where
  "path_join dir name = dir @ ''/'' @ name"

definition path_dirname :: "string \<Rightarrow> string" where
  "path_dirname p = rev (drop 1 (dropWhile (\<lambda>c. c \<noteq> CHR ''/'') (rev p)))"

definition path_basename :: "string \<Rightarrow> string" where
  "path_basename p = rev (takeWhile (\<lambda>c. c \<noteq> CHR ''/'') (rev p))"

definition path_extname :: "string \<Rightarrow> string" where
  "path_extname p =
     (let base = path_basename p;
          ext = rev (takeWhile (\<lambda>c. c \<noteq> CHR ''.'') (rev base))
      in if CHR ''.'' \<in> set base \<and> length ext + 1 < length base then CHR ''.'' # ext else [])"

definition path_basename_ext :: "string \<Rightarrow> string \<Rightarrow> string" where
  "path_basename_ext p ext =
     (let base = path_basename p
      in if ext \<noteq> [] \<and> length ext < length base \<and> drop (length base - length ext) base = ext
         then take (length base - length ext) base else base)"

definition path_resolve :: "string \<Rightarrow> string" where
  "path_resolve p = p"

subsection \<open>The world outside the handler\<close>

text \<open>
  Every \<open>spawn('ffmpeg', ...)\<close> is an external-tool invocation.  The filter of
  \<open>muxAligned\<close> is kept as data: a delay (with padding) of a rounded number of
  milliseconds, or a trim of a number of seconds.
\<close>

datatype audio_filter = Adelay int | Atrim real

datatype tool_call =
    FfmpegVersion
  | FfmpegExtract string string
  | FfmpegMux string string audio_filter string

fun isMux :: "tool_call \<Rightarrow> bool" where
  "isMux (FfmpegMux v a f out) = True"
| "isMux c = False"

fun isExtract :: "tool_call \<Rightarrow> bool" where
  "isExtract (FfmpegExtract i w) = True"
| "isExtract c = False"

text \<open>
  The state the handler changes: the temporary directories that exist, the tool
  invocations made so far, the number of directories \<open>mkdtempSync\<close> has made, and the
  log events sent to the window.
\<close>

record world =
  tmpDirs :: "string list"
  calls :: "tool_call list"
  made :: nat
  sent :: "(string \<times> string) list"

text \<open>
  What the handler cannot decide: the outcome of the \<open>n\<close>-th tool invocation, what
  \<open>parseWavPcm16\<close> and \<open>computeEnergyProfile\<close> make of a decoded file (a thrown
  \<open>Error\<close> or the energy list), the temp root, the random suffix of the \<open>n\<close>-th
  temporary directory, whether removing a directory throws, whether a window exists,
  number formatting, and \<open>String.prototype.trim\<close>.
\<close>

record align_env =
  versionOk :: "nat \<Rightarrow> bool"
  extractOk :: "nat \<Rightarrow> string \<Rightarrow> bool"
  extractStderr :: "nat \<Rightarrow> string \<Rightarrow> string"
  muxExit :: "nat \<Rightarrow> string \<Rightarrow> string \<Rightarrow> int option \<times> string"
  energiesOf :: "string \<Rightarrow> string + real list"
  tempRoot :: string
  tmpSuffix :: "nat \<Rightarrow> string"
  rmThrows :: "string \<Rightarrow> bool"
  hasWindow :: bool
  toFixed :: "nat \<Rightarrow> real \<Rightarrow> string"
  showCode :: "int option \<Rightarrow> string"
  showNat :: "nat \<Rightarrow> string"
  trim :: "string \<Rightarrow> string"

text \<open>\<open>checkFfmpeg\<close>: spawn \<open>ffmpeg -version\<close>; true when it exits with code 0.\<close>

definition checkFfmpeg :: "align_env \<Rightarrow> world \<Rightarrow> bool \<times> world" where
  "checkFfmpeg env w =
     (versionOk env (length (calls w)), w\<lparr>calls := calls w @ [FfmpegVersion]\<rparr>)"

text \<open>\<open>fs.mkdtempSync(prefix)\<close>: a new directory named by the prefix and a suffix.\<close>

definition mkdtempSync :: "align_env \<Rightarrow> string \<Rightarrow> world \<Rightarrow> string \<times> world" where
  "mkdtempSync env prefix w =
     (let dir = prefix @ tmpSuffix env (made w)
      in (dir, w\<lparr>tmpDirs := tmpDirs w @ [dir], made := made w + 1\<rparr>))"

text \<open>
  \<open>fs.rmSync(dir, { recursive: true, force: true })\<close>: \<open>Inl\<close> when it throws, else the
  world without the directory.
\<close>

definition rmSync :: "align_env \<Rightarrow> string \<Rightarrow> world \<Rightarrow> unit + world" where
  "rmSync env dir w =
     (if rmThrows env dir then Inl () else Inr (w\<lparr>tmpDirs := removeAll dir (tmpDirs w)\<rparr>))"

text \<open>
  \<open>extractAudioToWav\<close>: \<open>Inl\<close> is the \<open>error\<close> field, \<open>Inr\<close> the \<open>wavPath\<close>
  field of its result.  The temporary directory is made before ffmpeg is started.
\<close>

definition extractAudioToWav :: "align_env \<Rightarrow> string \<Rightarrow> world \<Rightarrow> (string + string) \<times> world" where
  "extractAudioToWav env inputPath w =
     (let (ok, w1) = checkFfmpeg env w
      in if \<not> ok then (Inl ''FFmpeg is required for alignment.'', w1)
         else
           let (tempDir, w2) = mkdtempSync env (path_join (tempRoot env) ''align-audio-'') w1;
               wavPath = path_join tempDir ''audio.wav'';
               n = length (calls w2);
               w3 = w2\<lparr>calls := calls w2 @ [FfmpegExtract inputPath wavPath]\<rparr>
           in if extractOk env n inputPath
              then (Inr wavPath, w3)
              else (Inl (''Failed to extract audio: '' @ extractStderr env n inputPath), w3))"

text \<open>\<open>computeEnergyProfile\<close> returns the energies with \<open>hopMs = 100\<close>.\<close>

record EnergyProfile =
  energies :: "real list"
  hopMs :: real

definition computeEnergyProfile :: "align_env \<Rightarrow> string \<Rightarrow> string + EnergyProfile" where
  "computeEnergyProfile env wavPath =
     (case energiesOf env wavPath of
        Inl m \<Rightarrow> Inl m
      | Inr es \<Rightarrow> Inr \<lparr>energies = es, hopMs = 100\<rparr>)"

text \<open>
  \<open>muxAligned\<close>: \<open>None\<close> is \<open>{ success: true }\<close>, \<open>Some e\<close> is \<open>{ error: e }\<close> with
  \<open>e = errorOutput || `FFmpeg exited with code ${code}`\<close>.
\<close>

definition muxAligned ::
  "align_env \<Rightarrow> string \<Rightarrow> string \<Rightarrow> real \<Rightarrow> string \<Rightarrow> world \<Rightarrow> string option \<times> world" where
  "muxAligned env videoPath audioPath offset outPath w =
     (let filter = (if offset \<ge> 0 then Adelay (round offset) else Atrim (max 0 ((- offset) / 1000)));
          n = length (calls w);
          w1 = w\<lparr>calls := calls w @ [FfmpegMux videoPath audioPath filter outPath]\<rparr>;
          (code, errorOutput) = muxExit env n videoPath audioPath
      in if code = Some 0 then (None, w1)
         else (Some (if errorOutput \<noteq> [] then errorOutput
                     else ''FFmpeg exited with code '' @ showCode env code), w1))"

subsection \<open>The handler\<close>

record AlignmentRunOptions =
  videoPaths :: "string list"
  audioPaths :: "string list"
  prepend :: "string option"
  outputPath :: "string option"
  runId :: "string option"

record AlignmentReportEntry =
  entryTitle :: string
  entryVideo :: string
  entryAudio :: string
  entryOffsetMs :: int
  entryScore :: score
  entryOutput :: string

record AlignmentRunResult =
  resultSuccess :: "bool option"
  resultError :: "string option"
  resultLogs :: "string list"
  resultOutputPath :: "string option"
  resultReportData :: "AlignmentReportEntry list option"
  resultOutputs :: "AlignmentReportEntry list option"

text \<open>
  The handler returns a result, throws (a synchronous exception of
  \<open>computeEnergyProfile\<close> rejects the handler's promise), or does not return.
\<close>

datatype run_outcome = Returned AlignmentRunResult | Threw string | Diverges

text \<open>The local variables that live across iterations of the loop over the pairs.\<close>

record run_state =
  logs :: "string list"
  lastOutput :: "string option"
  reportData :: "AlignmentReportEntry list"
  allOutputs :: "AlignmentReportEntry list"

text \<open>\<open>return { error: e, logs }\<close>\<close>

definition errorResult :: "string \<Rightarrow> string list \<Rightarrow> AlignmentRunResult" where
  "errorResult e ls =
     \<lparr>resultSuccess = None, resultError = Some e, resultLogs = ls, resultOutputPath = None,
      resultReportData = None, resultOutputs = None\<rparr>"

text \<open>\<open>sendLog\<close>: push on \<open>logs\<close>, and send to the window if there is one and a run id.\<close>

definition sendLog ::
  "align_env \<Rightarrow> AlignmentRunOptions \<Rightarrow> string \<Rightarrow> run_state \<times> world \<Rightarrow> run_state \<times> world" where
  "sendLog env opts message sw =
     (let (st, w) = sw;
          st' = st\<lparr>logs := logs st @ [message]\<rparr>
      in case runId opts of
           Some r \<Rightarrow> (if hasWindow env \<and> r \<noteq> [] then (st', w\<lparr>sent := sent w @ [(r, message)]\<rparr>)
                      else (st', w))
         | None \<Rightarrow> (st', w))"

definition deriveOutputPath ::
  "align_env \<Rightarrow> AlignmentRunOptions \<Rightarrow> string option \<Rightarrow> string \<Rightarrow> nat \<Rightarrow> nat \<Rightarrow> string \<Rightarrow> string" where
  "deriveOutputPath env opts providedOutput baseDir pairs i video =
     (let baseName = (case prepend opts of
                        None \<Rightarrow> ''ad_''
                      | Some p \<Rightarrow> if p \<noteq> [] then p else ''ad_'')
      in case providedOutput of
           Some out \<Rightarrow>
             (if pairs = 1 then out
              else
                let ext = (if path_extname out \<noteq> [] then path_extname out
                           else if path_extname video \<noteq> [] then path_extname video
                           else ''.mp4'');
                    name = path_basename_ext out
                             (if path_extname out \<noteq> [] then path_extname out else ext)
                in path_join baseDir (name @ ''_'' @ showNat env (i + 1) @ ext))
         | None \<Rightarrow> path_join baseDir (baseName @ path_basename video))"

text \<open>
  The log line of the offset: \<open>-Infinity.toFixed(3)\<close> is the text \<open>-Infinity\<close>.
\<close>

definition scoreToFixed :: "align_env \<Rightarrow> score \<Rightarrow> string" where
  "scoreToFixed env sc = (case sc of None \<Rightarrow> ''-Infinity'' | Some x \<Rightarrow> toFixed env 3 x)"

text \<open>
  The \<open>try\<close> block that ends an iteration: the second directory is not removed when
  removing the first one throws, and the exception is ignored.
\<close>

definition cleanupPair :: "align_env \<Rightarrow> string \<Rightarrow> string \<Rightarrow> world \<Rightarrow> world" where
  "cleanupPair env videoWav audioWav w =
     (case rmSync env (path_dirname videoWav) w of
        Inl u \<Rightarrow> w
      | Inr w1 \<Rightarrow>
          (case rmSync env (path_dirname audioWav) w1 of
             Inl u \<Rightarrow> w1
           | Inr w2 \<Rightarrow> w2))"

text \<open>
  The body of the loop for pair \<open>i\<close>: \<open>Inl\<close> is an early exit of the handler,
  \<open>Inr\<close> the state after the iteration.
\<close>

definition processPair ::
  "align_env \<Rightarrow> AlignmentRunOptions \<Rightarrow> string list \<Rightarrow> string list \<Rightarrow> nat \<Rightarrow> string option
     \<Rightarrow> string \<Rightarrow> nat \<Rightarrow> run_state \<times> world \<Rightarrow> (run_outcome + run_state) \<times> world" where
  "processPair env opts videos audios pairs providedOutput baseDir i sw =
     (let video = path_resolve (videos ! i);
          audio = path_resolve (audios ! i);
          outPath = deriveOutputPath env opts providedOutput baseDir pairs i video;
          (st1, w1) = sendLog env opts
                        (''Aligning: '' @ path_basename video @ '' with '' @ path_basename audio) sw;
          (videoExtract, w2) = extractAudioToWav env video w1
      in case videoExtract of
           Inl e \<Rightarrow> (Inl (Returned (errorResult e (logs st1))), w2)
         | Inr videoWav \<Rightarrow>
             (let (audioExtract, w3) = extractAudioToWav env audio w2
              in case audioExtract of
                   Inl e \<Rightarrow> (Inl (Returned (errorResult e (logs st1))), w3)
                 | Inr audioWav \<Rightarrow>
                     (case computeEnergyProfile env videoWav of
                        Inl m \<Rightarrow> (Inl (Threw m), w3)
                      | Inr videoProfile \<Rightarrow>
                          (case computeEnergyProfile env audioWav of
                             Inl m \<Rightarrow> (Inl (Threw m), w3)
                           | Inr audioProfile \<Rightarrow>
                               (if length (energies videoProfile) < 5
                                   \<or> length (energies audioProfile) < 5
                                then (Inl (Returned (errorResult
                                        ''Could not analyze audio energy (files too short or empty).''
                                        (logs st1))), w3)
                                else
                                  (case findBestOffset (energies videoProfile)
                                          (energies audioProfile) (hopMs videoProfile) of
                                     None \<Rightarrow> (Inl Diverges, w3)
                                   | Some best \<Rightarrow>
                                       (let (st2, w4) = sendLog env opts
                                              (''Best offset: '' @ toFixed env 0 (offsetMs best)
                                                 @ '' ms (score '' @ scoreToFixed env (score best)
                                                 @ '')'') (st1, w3);
                                            (mux, w5) = muxAligned env video audio (offsetMs best)
                                                          outPath w4
                                        in case mux of
                                             Some e \<Rightarrow>
                                               (Inl (Returned (errorResult e (logs st2))), w5)
                                           | None \<Rightarrow>
                                               (let entry =
                                                      \<lparr>entryTitle = path_basename outPath,
                                                       entryVideo = video, entryAudio = audio,
                                                       entryOffsetMs = round (offsetMs best),
                                                       entryScore = score best,
                                                       entryOutput = outPath\<rparr>;
                                                    st3 = st2\<lparr>lastOutput := Some outPath,
                                                            reportData := reportData st2 @ [entry],
                                                            allOutputs := allOutputs st2 @ [entry]\<rparr>
                                                in (Inr st3,
                                                    cleanupPair env videoWav audioWav w5)))))))))"

text \<open>\<open>for (let i = 0; i < pairs; i++)\<close> and the final \<open>return\<close>.\<close>

function runPairs ::
  "align_env \<Rightarrow> AlignmentRunOptions \<Rightarrow> string list \<Rightarrow> string list \<Rightarrow> nat \<Rightarrow> string option
     \<Rightarrow> string \<Rightarrow> nat \<Rightarrow> run_state \<times> world \<Rightarrow> run_outcome \<times> world" where
  "runPairs env opts videos audios pairs providedOutput baseDir i sw =
     (if i < pairs
      then (case processPair env opts videos audios pairs providedOutput baseDir i sw of
              (Inl out, w) \<Rightarrow> (out, w)
            | (Inr st, w) \<Rightarrow>
                runPairs env opts videos audios pairs providedOutput baseDir (i + 1) (st, w))
      else
        (let (st, w) = sw
         in (Returned \<lparr>resultSuccess = Some True, resultError = None, resultLogs = logs st,
                       resultOutputPath = lastOutput st,
                       resultReportData = Some (reportData st),
                       resultOutputs = Some (allOutputs st)\<rparr>, w)))"
  by pat_completeness auto
termination
  by (relation "measure (\<lambda>(env, opts, videos, audios, pairs, providedOutput, baseDir, i, sw). pairs - i)")
     auto

declare runPairs.simps [simp del]

definition alignmentRun :: "align_env \<Rightarrow> AlignmentRunOptions \<Rightarrow> world \<Rightarrow> run_outcome \<times> world" where
  "alignmentRun env opts w0 =
     (let st0 = \<lparr>logs = [], lastOutput = None, reportData = [], allOutputs = []\<rparr>;
          (ok, w1) = checkFfmpeg env w0
      in if \<not> ok then (Returned (errorResult ''FFmpeg is required for alignment.'' (logs st0)), w1)
         else if videoPaths opts = [] \<or> audioPaths opts = []
         then (Returned (errorResult ''Video and audio inputs are required.'' (logs st0)), w1)
         else
           let videos = sort (videoPaths opts);
               audios = sort (audioPaths opts);
               pairs = min (length videos) (length audios);
               providedOutput = (case outputPath opts of
                                   None \<Rightarrow> None
                                 | Some p \<Rightarrow> if p \<noteq> [] \<and> trim env p \<noteq> []
                                            then Some (path_resolve p) else None);
               (baseDir, w2) = (case providedOutput of
                                  Some p \<Rightarrow> (path_dirname p, w1)
                                | None \<Rightarrow> mkdtempSync env (path_join (tempRoot env) ''align-output-'') w1)
           in runPairs env opts videos audios pairs providedOutput baseDir 0 (st0, w2))"

subsection \<open>A stubbed environment\<close>

text \<open>
  A call-count stub for the external tool and the file system: whether ffmpeg is
  available, which inputs it can decode, the energy list of each decoded file, and the
  exit code of the mux.  Temporary directories are numbered by a growing suffix,
  removing a directory never throws, there is no window, and trimming removes the
  blanks at both ends.
\<close>

definition stubAlignEnv ::
  "bool \<Rightarrow> (string \<Rightarrow> bool) \<Rightarrow> (string \<Rightarrow> real list) \<Rightarrow> int option \<Rightarrow> align_env" where
  "stubAlignEnv available decodable profile muxCode =
     \<lparr>versionOk = (\<lambda>n. available),
      extractOk = (\<lambda>n p. decodable p),
      extractStderr = (\<lambda>n p. ''no audio stream''),
      muxExit = (\<lambda>n v a. (muxCode, [])),
      energiesOf = (\<lambda>p. Inr (profile p)),
      tempRoot = ''/tmp'',
      tmpSuffix = (\<lambda>n. replicate (Suc n) CHR ''x''),
      rmThrows = (\<lambda>d. False),
      hasWindow = False,
      toFixed = (\<lambda>digits x. ''0''),
      showCode = (\<lambda>c. ''1''),
      showNat = (\<lambda>n. ''1''),
      trim = (\<lambda>s. rev (dropWhile (\<lambda>c. c = CHR '' '') (rev (dropWhile (\<lambda>c. c = CHR '' '') s))))\<rparr>"

definition stubRunOptions :: AlignmentRunOptions where
  "stubRunOptions =
     \<lparr>videoPaths = [''/in/v.mp4''], audioPaths = [''/in/a.mp3''], prepend = None,
      outputPath = Some ''/out/final.mp4'', runId = None\<rparr>"

definition emptyWorld :: world where
  "emptyWorld = \<lparr>tmpDirs = [], calls = [], made = 0, sent = []\<rparr>"

section \<open>Properties of the offset search\<close>

lemma stepScore_None_iff: "stepScore aN bN t = None \<longleftrightarrow> overlapLen aN bN t \<le> 0"
  by (simp add: stepScore_def Let_def)

lemma searchLoop_spec:
  "(searchLoop aN bN h M s best = best \<and> (\<forall>t. s \<le> t \<and> t \<le> M \<longrightarrow> stepScore aN bN t \<le> score best))
   \<or> (\<exists>k. s \<le> k \<and> k \<le> M
        \<and> searchLoop aN bN h M s best = \<lparr>offsetMs = real_of_int k * h, score = stepScore aN bN k\<rparr>
        \<and> score best < stepScore aN bN k
        \<and> (\<forall>t. s \<le> t \<and> t < k \<longrightarrow> stepScore aN bN t < stepScore aN bN k)
        \<and> (\<forall>t. k \<le> t \<and> t \<le> M \<longrightarrow> stepScore aN bN t \<le> stepScore aN bN k))"
proof (induction aN bN h M s best rule: searchLoop.induct)
  case (1 aN bN h M s best)
  let ?sc = "stepScore aN bN"
  show ?case
  proof (cases "s \<le> M")
    case False
    then show ?thesis by (auto simp: searchLoop.simps)
  next
    case True
    let ?b = "advanceBest aN bN h best s"
    have unf: "searchLoop aN bN h M s best = searchLoop aN bN h M (s + 1) ?b"
      using True by (subst searchLoop.simps) simp
    note IH = "1.IH"[OF True]
    show ?thesis
    proof (cases "?sc s > score best")
      case gt: True
      then have b: "?b = \<lparr>offsetMs = real_of_int s * h, score = ?sc s\<rparr>"
        by (simp add: advanceBest_def Let_def)
      from IH show ?thesis
      proof
        assume A: "searchLoop aN bN h M (s + 1) ?b = ?b \<and> (\<forall>t. s + 1 \<le> t \<and> t \<le> M \<longrightarrow> ?sc t \<le> score ?b)"
        have "\<forall>t. s \<le> t \<and> t \<le> M \<longrightarrow> ?sc t \<le> ?sc s"
        proof (intro allI impI)
          fix t assume "s \<le> t \<and> t \<le> M"
          then consider "t = s" | "s + 1 \<le> t \<and> t \<le> M" by linarith
          then show "?sc t \<le> ?sc s" using A b by cases auto
        qed
        then show ?thesis using A b gt True unf by (intro disjI2 exI[of _ s]) auto
      next
        assume "\<exists>k. s + 1 \<le> k \<and> k \<le> M
          \<and> searchLoop aN bN h M (s + 1) ?b = \<lparr>offsetMs = real_of_int k * h, score = ?sc k\<rparr>
          \<and> score ?b < ?sc k
          \<and> (\<forall>t. s + 1 \<le> t \<and> t < k \<longrightarrow> ?sc t < ?sc k)
          \<and> (\<forall>t. k \<le> t \<and> t \<le> M \<longrightarrow> ?sc t \<le> ?sc k)"
        then obtain k where k: "s + 1 \<le> k" "k \<le> M"
          "searchLoop aN bN h M (s + 1) ?b = \<lparr>offsetMs = real_of_int k * h, score = ?sc k\<rparr>"
          "score ?b < ?sc k"
          "\<forall>t. s + 1 \<le> t \<and> t < k \<longrightarrow> ?sc t < ?sc k"
          "\<forall>t. k \<le> t \<and> t \<le> M \<longrightarrow> ?sc t \<le> ?sc k" by blast
        have sk: "?sc s < ?sc k" using k(4) b by simp
        have "\<forall>t. s \<le> t \<and> t < k \<longrightarrow> ?sc t < ?sc k"
        proof (intro allI impI)
          fix t assume "s \<le> t \<and> t < k"
          then consider "t = s" | "s + 1 \<le> t \<and> t < k" by linarith
          then show "?sc t < ?sc k" using sk k(5) by cases auto
        qed
        moreover have "score best < ?sc k" using gt sk by simp
        ultimately show ?thesis using k unf by (intro disjI2 exI[of _ k]) auto
      qed
    next
      case ngt: False
      then have b: "?b = best" by (simp add: advanceBest_def Let_def)
      have le: "?sc s \<le> score best" using ngt by simp
      from IH show ?thesis
      proof
        assume A: "searchLoop aN bN h M (s + 1) ?b = ?b \<and> (\<forall>t. s + 1 \<le> t \<and> t \<le> M \<longrightarrow> ?sc t \<le> score ?b)"
        have "\<forall>t. s \<le> t \<and> t \<le> M \<longrightarrow> ?sc t \<le> score best"
        proof (intro allI impI)
          fix t assume "s \<le> t \<and> t \<le> M"
          then consider "t = s" | "s + 1 \<le> t \<and> t \<le> M" by linarith
          then show "?sc t \<le> score best" using A b le by cases auto
        qed
        then show ?thesis using A b unf by (intro disjI1) auto
      next
        assume "\<exists>k. s + 1 \<le> k \<and> k \<le> M
          \<and> searchLoop aN bN h M (s + 1) ?b = \<lparr>offsetMs = real_of_int k * h, score = ?sc k\<rparr>
          \<and> score ?b < ?sc k
          \<and> (\<forall>t. s + 1 \<le> t \<and> t < k \<longrightarrow> ?sc t < ?sc k)
          \<and> (\<forall>t. k \<le> t \<and> t \<le> M \<longrightarrow> ?sc t \<le> ?sc k)"
        then obtain k where k: "s + 1 \<le> k" "k \<le> M"
          "searchLoop aN bN h M (s + 1) ?b = \<lparr>offsetMs = real_of_int k * h, score = ?sc k\<rparr>"
          "score ?b < ?sc k"
          "\<forall>t. s + 1 \<le> t \<and> t < k \<longrightarrow> ?sc t < ?sc k"
          "\<forall>t. k \<le> t \<and> t \<le> M \<longrightarrow> ?sc t \<le> ?sc k" by blast
        have sk: "?sc s < ?sc k" using k(4) b le by simp
        have "\<forall>t. s \<le> t \<and> t < k \<longrightarrow> ?sc t < ?sc k"
        proof (intro allI impI)
          fix t assume "s \<le> t \<and> t < k"
          then consider "t = s" | "s + 1 \<le> t \<and> t < k" by linarith
          then show "?sc t < ?sc k" using sk k(5) by cases auto
        qed
        moreover have "score best < ?sc k" using k(4) b by simp
        ultimately show ?thesis using k unf by (intro disjI2 exI[of _ k]) auto
      qed
    qed
  qed
qed

lemma searchLoop_eqI:
  assumes k: "s \<le> k" "k \<le> M"
    and gt: "score best < stepScore aN bN k"
    and before: "\<And>t. s \<le> t \<Longrightarrow> t < k \<Longrightarrow> stepScore aN bN t < stepScore aN bN k"
    and after: "\<And>t. k \<le> t \<Longrightarrow> t \<le> M \<Longrightarrow> stepScore aN bN t \<le> stepScore aN bN k"
  shows "searchLoop aN bN h M s best = \<lparr>offsetMs = real_of_int k * h, score = stepScore aN bN k\<rparr>"
proof -
  from searchLoop_spec[of aN bN h M s best] show ?thesis
  proof
    assume "searchLoop aN bN h M s best = best \<and> (\<forall>t. s \<le> t \<and> t \<le> M \<longrightarrow> stepScore aN bN t \<le> score best)"
    then have "stepScore aN bN k \<le> score best" using k by blast
    then show ?thesis using gt by simp
  next
    assume "\<exists>k. s \<le> k \<and> k \<le> M
        \<and> searchLoop aN bN h M s best = \<lparr>offsetMs = real_of_int k * h, score = stepScore aN bN k\<rparr>
        \<and> score best < stepScore aN bN k
        \<and> (\<forall>t. s \<le> t \<and> t < k \<longrightarrow> stepScore aN bN t < stepScore aN bN k)
        \<and> (\<forall>t. k \<le> t \<and> t \<le> M \<longrightarrow> stepScore aN bN t \<le> stepScore aN bN k)"
    then obtain k' where k': "s \<le> k'" "k' \<le> M"
        "searchLoop aN bN h M s best = \<lparr>offsetMs = real_of_int k' * h, score = stepScore aN bN k'\<rparr>"
        "\<forall>t. s \<le> t \<and> t < k' \<longrightarrow> stepScore aN bN t < stepScore aN bN k'"
        "\<forall>t. k' \<le> t \<and> t \<le> M \<longrightarrow> stepScore aN bN t \<le> stepScore aN bN k'" by blast
    have "k' = k"
    proof (rule ccontr)
      assume "k' \<noteq> k"
      then consider "k' < k" | "k < k'" by linarith
      then show False
      proof cases
        case 1
        then have "stepScore aN bN k' < stepScore aN bN k" using before k'(1) by blast
        moreover have "stepScore aN bN k \<le> stepScore aN bN k'" using k'(5) 1 k(2) by simp
        ultimately show False by simp
      next
        case 2
        then have "stepScore aN bN k < stepScore aN bN k'" using k'(4) k(1) by blast
        moreover have "stepScore aN bN k' \<le> stepScore aN bN k" using after 2 k'(2) by simp
        ultimately show False by simp
      qed
    qed
    then show ?thesis using k'(3) by simp
  qed
qed


lemma stepScore_out_of_range:
  "t \<ge> int (length bN) \<or> t \<le> - int (length aN) \<Longrightarrow> stepScore aN bN t = None"
  by (auto simp: stepScore_def overlapLen_def Let_def)

lemma maxStepsOf_100: "maxStepsOf 100 = 9000"
  by (simp add: maxStepsOf_def ALIGN_MAX_OFFSET_MS_def)

lemma findBestOffset_spec:
  assumes "hop \<noteq> 0"
  shows "\<exists>r. findBestOffset a b hop = Some r \<and>
           ((r = \<lparr>offsetMs = 0, score = None\<rparr>
               \<and> (\<forall>t. - maxStepsOf hop \<le> t \<and> t \<le> maxStepsOf hop
                      \<longrightarrow> stepScore (normalizeSeries a) (normalizeSeries b) t = None))
            \<or> (\<exists>k. - maxStepsOf hop \<le> k \<and> k \<le> maxStepsOf hop
                 \<and> r = \<lparr>offsetMs = real_of_int k * hop,
                         score = stepScore (normalizeSeries a) (normalizeSeries b) k\<rparr>
                 \<and> stepScore (normalizeSeries a) (normalizeSeries b) k \<noteq> None
                 \<and> (\<forall>t. - maxStepsOf hop \<le> t \<and> t < k
                        \<longrightarrow> stepScore (normalizeSeries a) (normalizeSeries b) t
                             < stepScore (normalizeSeries a) (normalizeSeries b) k)
                 \<and> (\<forall>t. k \<le> t \<and> t \<le> maxStepsOf hop
                        \<longrightarrow> stepScore (normalizeSeries a) (normalizeSeries b) t
                             \<le> stepScore (normalizeSeries a) (normalizeSeries b) k)))"
proof -
  let ?M = "maxStepsOf hop"
  let ?aN = "normalizeSeries a" and ?bN = "normalizeSeries b"
  let ?init = "\<lparr>offsetMs = 0, score = None\<rparr>"
  have eq: "findBestOffset a b hop = Some (searchLoop ?aN ?bN hop ?M (- ?M) ?init)"
    using assms by (simp add: findBestOffset_def Let_def)
  from searchLoop_spec[of ?aN ?bN hop ?M "- ?M" ?init] show ?thesis
  proof
    assume A: "searchLoop ?aN ?bN hop ?M (- ?M) ?init = ?init
      \<and> (\<forall>t. - ?M \<le> t \<and> t \<le> ?M \<longrightarrow> stepScore ?aN ?bN t \<le> score ?init)"
    then have "\<forall>t. - ?M \<le> t \<and> t \<le> ?M \<longrightarrow> stepScore ?aN ?bN t = None"
      by (auto dest: less_eq_option_None_is_None)
    then show ?thesis using A eq by auto
  next
    assume "\<exists>k. - ?M \<le> k \<and> k \<le> ?M
        \<and> searchLoop ?aN ?bN hop ?M (- ?M) ?init
            = \<lparr>offsetMs = real_of_int k * hop, score = stepScore ?aN ?bN k\<rparr>
        \<and> score ?init < stepScore ?aN ?bN k
        \<and> (\<forall>t. - ?M \<le> t \<and> t < k \<longrightarrow> stepScore ?aN ?bN t < stepScore ?aN ?bN k)
        \<and> (\<forall>t. k \<le> t \<and> t \<le> ?M \<longrightarrow> stepScore ?aN ?bN t \<le> stepScore ?aN ?bN k)"
    then obtain k where k: "- ?M \<le> k" "k \<le> ?M"
        "searchLoop ?aN ?bN hop ?M (- ?M) ?init
            = \<lparr>offsetMs = real_of_int k * hop, score = stepScore ?aN ?bN k\<rparr>"
        "score ?init < stepScore ?aN ?bN k"
        "\<forall>t. - ?M \<le> t \<and> t < k \<longrightarrow> stepScore ?aN ?bN t < stepScore ?aN ?bN k"
        "\<forall>t. k \<le> t \<and> t \<le> ?M \<longrightarrow> stepScore ?aN ?bN t \<le> stepScore ?aN ?bN k"
      by blast
    have "stepScore ?aN ?bN k \<noteq> None" using k(4) by (cases "stepScore ?aN ?bN k") auto
    then show ?thesis using k eq by auto
  qed
qed

lemma findBestOffset_eqI:
  assumes h: "hop \<noteq> 0"
    and k: "- maxStepsOf hop \<le> k" "k \<le> maxStepsOf hop"
    and v: "stepScore (normalizeSeries a) (normalizeSeries b) k = Some v"
    and before: "\<And>t. - maxStepsOf hop \<le> t \<Longrightarrow> t < k
                  \<Longrightarrow> stepScore (normalizeSeries a) (normalizeSeries b) t < Some v"
    and after: "\<And>t. k \<le> t \<Longrightarrow> t \<le> maxStepsOf hop
                  \<Longrightarrow> stepScore (normalizeSeries a) (normalizeSeries b) t \<le> Some v"
  shows "findBestOffset a b hop = Some \<lparr>offsetMs = real_of_int k * hop, score = Some v\<rparr>"
proof -
  have "searchLoop (normalizeSeries a) (normalizeSeries b) hop (maxStepsOf hop)
          (- maxStepsOf hop) \<lparr>offsetMs = 0, score = None\<rparr>
        = \<lparr>offsetMs = real_of_int k * hop,
           score = stepScore (normalizeSeries a) (normalizeSeries b) k\<rparr>"
    using k v before after by (intro searchLoop_eqI) auto
  then show ?thesis using h v by (simp add: findBestOffset_def Let_def)
qed

lemma norm_ends: "normalizeSeries [5,0,0,0,0,0,0,0,0,5] = [2,-1/2,-1/2,-1/2,-1/2,-1/2,-1/2,-1/2,-1/2,2]"
  by (simp add: normalizeSeries_def Let_def power2_eq_square)

lemma ends_scores:
  "list_all (\<lambda>t. stepScore [2,-1/2,-1/2,-1/2,-1/2,-1/2,-1/2,-1/2,-1/2,2]
                  [2,-1/2,-1/2,-1/2,-1/2,-1/2,-1/2,-1/2,-1/2,2] t \<le> Some 4) [-9..9]"
  by (simp add: stepScore_def overlapLen_def Let_def upto.simps upt_rec)

lemma ends_score_first:
  "stepScore [2,-1/2,-1/2,-1/2,-1/2,-1/2,-1/2,-1/2,-1/2,2]
             [2,-1/2,-1/2,-1/2,-1/2,-1/2,-1/2,-1/2,-1/2,2] (-9) = Some 4"
  by (simp add: stepScore_def overlapLen_def Let_def upt_rec)

text \<open>
  Claim C2, as stated, fails: a series whose two ends carry the energy correlates best
  with itself at the one-sample overlap of its two ends.  For ten samples \<open>5, 0, ..., 0, 5\<close>
  (normalised: \<open>2, -1/2, ..., -1/2, 2\<close>; every value is exact in binary floating point) and
  the hop of 100 ms the search returns \<open>-900\<close> with score 4, not 0 with score 1.
\<close>

theorem findBestOffset_self_counterexample:
  "findBestOffset [5,0,0,0,0,0,0,0,0,5] [5,0,0,0,0,0,0,0,0,5] 100
     = Some \<lparr>offsetMs = - 900, score = Some 4\<rparr>"
proof -
  let ?s = "[5,0,0,0,0,0,0,0,0,5] :: real list"
  let ?n = "[2,-1/2,-1/2,-1/2,-1/2,-1/2,-1/2,-1/2,-1/2,2] :: real list"
  have "\<forall>t\<in>{- 9..9}. stepScore ?n ?n t \<le> Some 4"
    using ends_scores unfolding list_all_iff set_upto .
  then have in_range: "\<And>t. - 9 \<le> t \<Longrightarrow> t \<le> 9 \<Longrightarrow> stepScore ?n ?n t \<le> Some 4"
    by (simp only: atLeastAtMost_iff)
  have "findBestOffset ?s ?s 100 = Some \<lparr>offsetMs = real_of_int (- 9) * 100, score = Some 4\<rparr>"
  proof (rule findBestOffset_eqI)
    show "(100::real) \<noteq> 0" by simp
    show "- maxStepsOf 100 \<le> - 9" "- 9 \<le> maxStepsOf 100" by (simp_all add: maxStepsOf_100)
    show "stepScore (normalizeSeries ?s) (normalizeSeries ?s) (- 9) = Some 4"
      unfolding norm_ends by (rule ends_score_first)
  next
    fix t :: int assume "t < - 9"
    then have "stepScore ?n ?n t = None" by (intro stepScore_out_of_range) simp
    then show "stepScore (normalizeSeries ?s) (normalizeSeries ?s) t < Some 4"
      unfolding norm_ends by simp
  next
    fix t :: int assume t: "- 9 \<le> t"
    show "stepScore (normalizeSeries ?s) (normalizeSeries ?s) t \<le> Some 4"
    proof (cases "t \<le> 9")
      case True
      then show ?thesis unfolding norm_ends using in_range t by simp
    next
      case False
      then have "stepScore ?n ?n t = None" by (intro stepScore_out_of_range) simp
      then show ?thesis unfolding norm_ends by simp
    qed
  qed
  then show ?thesis by simp
qed


lemma stepScore_swap: "stepScore bN aN (- t) = stepScore aN bN t"
  by (simp add: stepScore_def overlapLen_def Let_def min.commute mult.commute)

lemma length_normalizeSeries: "length (normalizeSeries xs) = length xs"
  by (simp add: normalizeSeries_def Let_def)

lemma maxStepsOf_nonneg: "0 < hop \<Longrightarrow> 0 \<le> maxStepsOf hop"
  by (simp add: maxStepsOf_def ALIGN_MAX_OFFSET_MS_def)

lemma stepScore_zero_Some: "xs \<noteq> [] \<Longrightarrow> \<exists>v. stepScore xs xs 0 = Some v"
  by (simp add: stepScore_def overlapLen_def Let_def)

text \<open>
  Claim C5.  A candidate step whose overlap length is not positive scores \<open>-Infinity\<close>;
  when some step of the window has positive overlap, the result is a step with positive
  overlap; when none has, the result is offset 0 with score \<open>-Infinity\<close>.  The call
  returns for every hop other than 0.
\<close>

theorem findBestOffset_no_overlap:
  assumes "hop \<noteq> 0"
  shows "\<exists>r. findBestOffset a b hop = Some r
     \<and> (\<forall>step. overlapLen (normalizeSeries a) (normalizeSeries b) step \<le> 0
           \<longrightarrow> stepScore (normalizeSeries a) (normalizeSeries b) step = None)
     \<and> ((\<exists>t. - maxStepsOf hop \<le> t \<and> t \<le> maxStepsOf hop
              \<and> 0 < overlapLen (normalizeSeries a) (normalizeSeries b) t)
          \<longrightarrow> (\<exists>k. - maxStepsOf hop \<le> k \<and> k \<le> maxStepsOf hop
                 \<and> 0 < overlapLen (normalizeSeries a) (normalizeSeries b) k
                 \<and> offsetMs r = real_of_int k * hop
                 \<and> score r = stepScore (normalizeSeries a) (normalizeSeries b) k))
     \<and> ((\<forall>t. - maxStepsOf hop \<le> t \<and> t \<le> maxStepsOf hop
              \<longrightarrow> overlapLen (normalizeSeries a) (normalizeSeries b) t \<le> 0)
          \<longrightarrow> offsetMs r = 0 \<and> score r = None)"
proof -
  let ?sc = "stepScore (normalizeSeries a) (normalizeSeries b)"
  let ?ov = "overlapLen (normalizeSeries a) (normalizeSeries b)"
  let ?M = "maxStepsOf hop"
  have none_iff: "\<And>t. ?sc t = None \<longleftrightarrow> ?ov t \<le> 0" by (rule stepScore_None_iff)
  from findBestOffset_spec[OF assms, of a b]
  obtain r where r: "findBestOffset a b hop = Some r"
    and alt: "(r = \<lparr>offsetMs = 0, score = None\<rparr> \<and> (\<forall>t. - ?M \<le> t \<and> t \<le> ?M \<longrightarrow> ?sc t = None))
      \<or> (\<exists>k. - ?M \<le> k \<and> k \<le> ?M \<and> r = \<lparr>offsetMs = real_of_int k * hop, score = ?sc k\<rparr>
            \<and> ?sc k \<noteq> None
            \<and> (\<forall>t. - ?M \<le> t \<and> t < k \<longrightarrow> ?sc t < ?sc k)
            \<and> (\<forall>t. k \<le> t \<and> t \<le> ?M \<longrightarrow> ?sc t \<le> ?sc k))"
    by blast
  have p1: "\<forall>step. ?ov step \<le> 0 \<longrightarrow> ?sc step = None" using none_iff by blast
  from alt have p23: "((\<exists>t. - ?M \<le> t \<and> t \<le> ?M \<and> 0 < ?ov t)
          \<longrightarrow> (\<exists>k. - ?M \<le> k \<and> k \<le> ?M \<and> 0 < ?ov k
                 \<and> offsetMs r = real_of_int k * hop \<and> score r = ?sc k))
     \<and> ((\<forall>t. - ?M \<le> t \<and> t \<le> ?M \<longrightarrow> ?ov t \<le> 0) \<longrightarrow> offsetMs r = 0 \<and> score r = None)"
  proof
    assume A: "r = \<lparr>offsetMs = 0, score = None\<rparr> \<and> (\<forall>t. - ?M \<le> t \<and> t \<le> ?M \<longrightarrow> ?sc t = None)"
    then have "\<forall>t. - ?M \<le> t \<and> t \<le> ?M \<longrightarrow> ?ov t \<le> 0" using none_iff by blast
    then have "\<not> (\<exists>t. - ?M \<le> t \<and> t \<le> ?M \<and> 0 < ?ov t)" by force
    moreover have "offsetMs r = 0 \<and> score r = None" using A by simp
    ultimately show ?thesis by blast
  next
    assume "\<exists>k. - ?M \<le> k \<and> k \<le> ?M \<and> r = \<lparr>offsetMs = real_of_int k * hop, score = ?sc k\<rparr>
            \<and> ?sc k \<noteq> None
            \<and> (\<forall>t. - ?M \<le> t \<and> t < k \<longrightarrow> ?sc t < ?sc k)
            \<and> (\<forall>t. k \<le> t \<and> t \<le> ?M \<longrightarrow> ?sc t \<le> ?sc k)"
    then obtain k where k: "- ?M \<le> k" "k \<le> ?M"
      "r = \<lparr>offsetMs = real_of_int k * hop, score = ?sc k\<rparr>" "?sc k \<noteq> None" by blast
    have ov: "0 < ?ov k" using k(4) none_iff[of k] by simp
    have "\<exists>k. - ?M \<le> k \<and> k \<le> ?M \<and> 0 < ?ov k
                 \<and> offsetMs r = real_of_int k * hop \<and> score r = ?sc k"
      using k ov by (intro exI[of _ k]) simp
    moreover have "\<not> (\<forall>t. - ?M \<le> t \<and> t \<le> ?M \<longrightarrow> ?ov t \<le> 0)"
      using k(1,2) ov by force
    ultimately show ?thesis by blast
  qed
  show ?thesis using r p1 p23 by blast
qed

text \<open>Claim C5, witness: an empty second series leaves no overlap at any step.\<close>

theorem findBestOffset_no_overlap_witness:
  "findBestOffset [1, 2] [] 100 = Some \<lparr>offsetMs = 0, score = None\<rparr>"
proof -
  have h: "(100::real) \<noteq> 0" by simp
  have "\<forall>t. - maxStepsOf 100 \<le> t \<and> t \<le> maxStepsOf 100
          \<longrightarrow> overlapLen (normalizeSeries [1, 2]) (normalizeSeries []) t \<le> 0"
    by (auto simp: overlapLen_def length_normalizeSeries)
  with findBestOffset_no_overlap[OF h, of "[1, 2]" "[]"] show ?thesis by auto
qed

text \<open>
  Claim C2, amended.  For a non-empty series and a positive hop, the search of a series
  against itself returns the maximum score of the window at the earliest step that
  attains it; that step is never positive, and the offset is 0 exactly when every
  negative step of the window scores strictly below step 0.
\<close>

theorem findBestOffset_self_earliest_max:
  assumes ne: "series \<noteq> []" and pos: "0 < hop"
  shows "\<exists>r. findBestOffset series series hop = Some r
     \<and> (\<forall>t. - maxStepsOf hop \<le> t \<and> t \<le> maxStepsOf hop
           \<longrightarrow> stepScore (normalizeSeries series) (normalizeSeries series) t \<le> score r)
     \<and> (\<exists>k. - maxStepsOf hop \<le> k \<and> k \<le> 0
            \<and> offsetMs r = real_of_int k * hop
            \<and> score r = stepScore (normalizeSeries series) (normalizeSeries series) k
            \<and> (\<forall>t. - maxStepsOf hop \<le> t \<and> t < k
                  \<longrightarrow> stepScore (normalizeSeries series) (normalizeSeries series) t < score r))
     \<and> (offsetMs r = 0 \<longleftrightarrow>
          (\<forall>t. - maxStepsOf hop \<le> t \<and> t < 0
             \<longrightarrow> stepScore (normalizeSeries series) (normalizeSeries series) t
                  < stepScore (normalizeSeries series) (normalizeSeries series) 0))"
proof -
  let ?n = "normalizeSeries series"
  let ?sc = "stepScore ?n ?n"
  let ?M = "maxStepsOf hop"
  have M0: "0 \<le> ?M" using pos by (rule maxStepsOf_nonneg)
  have "?n \<noteq> []" using ne length_normalizeSeries[of series] by auto
  then obtain v0 where v0: "?sc 0 = Some v0" using stepScore_zero_Some by blast
  have sym: "\<And>t. ?sc (- t) = ?sc t" by (rule stepScore_swap)
  have hop0: "hop \<noteq> 0" using pos by simp
  from findBestOffset_spec[OF hop0, of series series]
  obtain r where r: "findBestOffset series series hop = Some r"
    and alt: "(r = \<lparr>offsetMs = 0, score = None\<rparr> \<and> (\<forall>t. - ?M \<le> t \<and> t \<le> ?M \<longrightarrow> ?sc t = None))
      \<or> (\<exists>k. - ?M \<le> k \<and> k \<le> ?M \<and> r = \<lparr>offsetMs = real_of_int k * hop, score = ?sc k\<rparr>
            \<and> ?sc k \<noteq> None
            \<and> (\<forall>t. - ?M \<le> t \<and> t < k \<longrightarrow> ?sc t < ?sc k)
            \<and> (\<forall>t. k \<le> t \<and> t \<le> ?M \<longrightarrow> ?sc t \<le> ?sc k))"
    by blast
  have "\<not> (\<forall>t. - ?M \<le> t \<and> t \<le> ?M \<longrightarrow> ?sc t = None)" using M0 v0 by force
  with alt obtain k where k: "- ?M \<le> k" "k \<le> ?M"
      "r = \<lparr>offsetMs = real_of_int k * hop, score = ?sc k\<rparr>"
      and before: "\<forall>t. - ?M \<le> t \<and> t < k \<longrightarrow> ?sc t < ?sc k"
      and after: "\<forall>t. k \<le> t \<and> t \<le> ?M \<longrightarrow> ?sc t \<le> ?sc k"
    by blast
  have sr: "score r = ?sc k" and off: "offsetMs r = real_of_int k * hop" using k(3) by simp_all
  have k0: "k \<le> 0"
  proof (rule ccontr)
    assume "\<not> k \<le> 0"
    then have "- ?M \<le> - k \<and> - k < k" using k(2) by simp
    then have "?sc (- k) < ?sc k" using before by blast
    then show False using sym[of k] by simp
  qed
  have mx: "\<forall>t. - ?M \<le> t \<and> t \<le> ?M \<longrightarrow> ?sc t \<le> score r"
  proof (intro allI impI)
    fix t assume t: "- ?M \<le> t \<and> t \<le> ?M"
    show "?sc t \<le> score r"
    proof (cases "t < k")
      case True
      then have "?sc t < ?sc k" using before t by blast
      then show ?thesis using sr by simp
    next
      case False
      then show ?thesis using after t sr by simp
    qed
  qed
  have zero_iff: "offsetMs r = 0 \<longleftrightarrow> (\<forall>t. - ?M \<le> t \<and> t < 0 \<longrightarrow> ?sc t < ?sc 0)"
  proof
    assume "offsetMs r = 0"
    then have "k = 0" using off pos by simp
    then show "\<forall>t. - ?M \<le> t \<and> t < 0 \<longrightarrow> ?sc t < ?sc 0" using before by simp
  next
    assume neg: "\<forall>t. - ?M \<le> t \<and> t < 0 \<longrightarrow> ?sc t < ?sc 0"
    have "k = 0"
    proof (rule ccontr)
      assume "k \<noteq> 0"
      then have "k < 0" using k0 by simp
      then have "?sc k < ?sc 0" using neg k(1) by blast
      moreover have "?sc 0 \<le> ?sc k" using after k0 M0 by blast
      ultimately show False by simp
    qed
    then show "offsetMs r = 0" using off by simp
  qed
  have "\<exists>k. - ?M \<le> k \<and> k \<le> 0 \<and> offsetMs r = real_of_int k * hop \<and> score r = ?sc k
            \<and> (\<forall>t. - ?M \<le> t \<and> t < k \<longrightarrow> ?sc t < score r)"
    using k(1) k0 off sr before by (intro exI[of _ k]) simp
  then show ?thesis using r mx zero_iff by blast
qed

text \<open>Claim C2, witness of the amended statement on the series \<open>1, 2, 3\<close>.\<close>

theorem findBestOffset_self_earliest_max_witness:
  "\<exists>r. findBestOffset [1, 2, 3] [1, 2, 3] 100 = Some r \<and> offsetMs r \<le> 0"
proof -
  have h1: "[1, 2, 3] \<noteq> ([] :: real list)" by simp
  have h2: "(0::real) < 100" by simp
  from findBestOffset_self_earliest_max[OF h1 h2] obtain r k where
    "findBestOffset [1, 2, 3] [1, 2, 3] 100 = Some r" "k \<le> 0" "offsetMs r = real_of_int k * 100"
    by blast
  then show ?thesis by (intro exI[of _ r]) (simp add: mult_le_0_iff)
qed

lemma norm_middle:
  "normalizeSeries [0,5,5,5,5,5,5,5,5,0] = [-2,1/2,1/2,1/2,1/2,1/2,1/2,1/2,1/2,-2]"
  by (simp add: normalizeSeries_def Let_def power2_eq_square)

lemma ends_middle_scores:
  "list_all (\<lambda>t. stepScore [2,-1/2,-1/2,-1/2,-1/2,-1/2,-1/2,-1/2,-1/2,2]
                  [-2,1/2,1/2,1/2,1/2,1/2,1/2,1/2,1/2,-2] t \<le> Some 1) [-9..9]"
  by (simp add: stepScore_def overlapLen_def Let_def upto.simps upt_rec)

lemma ends_middle_first:
  "stepScore [2,-1/2,-1/2,-1/2,-1/2,-1/2,-1/2,-1/2,-1/2,2]
             [-2,1/2,1/2,1/2,1/2,1/2,1/2,1/2,1/2,-2] (- 8) = Some 1"
  "stepScore [2,-1/2,-1/2,-1/2,-1/2,-1/2,-1/2,-1/2,-1/2,2]
             [-2,1/2,1/2,1/2,1/2,1/2,1/2,1/2,1/2,-2] (- 9) = Some (- 4)"
  "stepScore [-2,1/2,1/2,1/2,1/2,1/2,1/2,1/2,1/2,-2]
             [2,-1/2,-1/2,-1/2,-1/2,-1/2,-1/2,-1/2,-1/2,2] (- 8) = Some 1"
  "stepScore [-2,1/2,1/2,1/2,1/2,1/2,1/2,1/2,1/2,-2]
             [2,-1/2,-1/2,-1/2,-1/2,-1/2,-1/2,-1/2,-1/2,2] (- 9) = Some (- 4)"
  by (simp_all add: stepScore_def overlapLen_def Let_def upt_rec)

lemma offset_from_table:
  fixes aN bN :: "real list"
  assumes na: "normalizeSeries a = aN" and nb: "normalizeSeries b = bN"
    and len: "length aN = 10" "length bN = 10"
    and first: "stepScore aN bN (- 8) = Some 1" "stepScore aN bN (- 9) = Some (- 4)"
    and table: "\<And>t. - 9 \<le> t \<Longrightarrow> t \<le> 9 \<Longrightarrow> stepScore aN bN t \<le> Some 1"
  shows "findBestOffset a b 100 = Some \<lparr>offsetMs = - 800, score = Some 1\<rparr>"
proof -
  have "findBestOffset a b 100 = Some \<lparr>offsetMs = real_of_int (- 8) * 100, score = Some 1\<rparr>"
  proof (rule findBestOffset_eqI)
    show "(100::real) \<noteq> 0" by simp
    show "- maxStepsOf 100 \<le> - 8" "- 8 \<le> maxStepsOf 100" by (simp_all add: maxStepsOf_100)
    show "stepScore (normalizeSeries a) (normalizeSeries b) (- 8) = Some 1"
      unfolding na nb by (rule first)
  next
    fix t :: int assume t: "t < - 8"
    show "stepScore (normalizeSeries a) (normalizeSeries b) t < Some 1"
    proof (cases "t = - 9")
      case True
      then show ?thesis unfolding na nb by (simp add: first)
    next
      case False
      then have "stepScore aN bN t = None" using t len by (intro stepScore_out_of_range) simp
      then show ?thesis unfolding na nb by simp
    qed
  next
    fix t :: int assume t: "- 8 \<le> t"
    show "stepScore (normalizeSeries a) (normalizeSeries b) t \<le> Some 1"
    proof (cases "t \<le> 9")
      case True
      then show ?thesis unfolding na nb using table t by simp
    next
      case False
      then have "stepScore aN bN t = None" using len by (intro stepScore_out_of_range) simp
      then show ?thesis unfolding na nb by simp
    qed
  qed
  then show ?thesis by simp
qed

text \<open>
  Claim C8, as stated, fails.  Take ten samples with the energy at the two ends,
  \<open>5, 0, ..., 0, 5\<close>, and ten with the energy in the middle, \<open>0, 5, ..., 5, 0\<close>
  (normalised: \<open>2, -1/2, ..., -1/2, 2\<close> and \<open>-2, 1/2, ..., 1/2, -2\<close>, exact in floating
  point).  In either order the steps \<open>-8\<close> and \<open>8\<close> score 1 and every other step
  scores less, and both calls keep the earliest maximiser: the offsets are \<open>-800\<close> and
  \<open>-800\<close>, sixteen hops away from being opposite.
\<close>

theorem findBestOffset_swap_counterexample:
  "findBestOffset [5,0,0,0,0,0,0,0,0,5] [0,5,5,5,5,5,5,5,5,0] 100
     = Some \<lparr>offsetMs = - 800, score = Some 1\<rparr>
   \<and> findBestOffset [0,5,5,5,5,5,5,5,5,0] [5,0,0,0,0,0,0,0,0,5] 100
     = Some \<lparr>offsetMs = - 800, score = Some 1\<rparr>"
proof -
  let ?A = "[2,-1/2,-1/2,-1/2,-1/2,-1/2,-1/2,-1/2,-1/2,2] :: real list"
  let ?B = "[-2,1/2,1/2,1/2,1/2,1/2,1/2,1/2,1/2,-2] :: real list"
  have "\<forall>t\<in>{- 9..9}. stepScore ?A ?B t \<le> Some 1"
    using ends_middle_scores unfolding list_all_iff set_upto .
  then have tab: "\<And>t. - 9 \<le> t \<Longrightarrow> t \<le> 9 \<Longrightarrow> stepScore ?A ?B t \<le> Some 1"
    by (simp only: atLeastAtMost_iff)
  have tab': "stepScore ?B ?A t \<le> Some 1" if "- 9 \<le> t" "t \<le> 9" for t
  proof -
    have "stepScore ?B ?A t = stepScore ?A ?B (- t)" by (rule stepScore_swap[symmetric])
    then show ?thesis using tab[of "- t"] that by simp
  qed
  have "findBestOffset [5,0,0,0,0,0,0,0,0,5] [0,5,5,5,5,5,5,5,5,0] 100
          = Some \<lparr>offsetMs = - 800, score = Some 1\<rparr>"
    by (rule offset_from_table[OF norm_ends norm_middle _ _ ends_middle_first(1,2) tab]) simp_all
  moreover have "findBestOffset [0,5,5,5,5,5,5,5,5,0] [5,0,0,0,0,0,0,0,0,5] 100
          = Some \<lparr>offsetMs = - 800, score = Some 1\<rparr>"
    by (rule offset_from_table[OF norm_middle norm_ends _ _ ends_middle_first(3,4) tab']) simp_all
  ultimately show ?thesis by simp
qed

lemma findBestOffset_max:
  assumes "hop \<noteq> 0"
  shows "\<exists>r. findBestOffset a b hop = Some r
     \<and> (\<forall>t. - maxStepsOf hop \<le> t \<and> t \<le> maxStepsOf hop
           \<longrightarrow> stepScore (normalizeSeries a) (normalizeSeries b) t \<le> score r)
     \<and> ((score r = None \<and> offsetMs r = 0)
         \<or> (\<exists>k. - maxStepsOf hop \<le> k \<and> k \<le> maxStepsOf hop
               \<and> offsetMs r = real_of_int k * hop
               \<and> score r = stepScore (normalizeSeries a) (normalizeSeries b) k
               \<and> stepScore (normalizeSeries a) (normalizeSeries b) k \<noteq> None))"
proof -
  let ?sc = "stepScore (normalizeSeries a) (normalizeSeries b)"
  let ?M = "maxStepsOf hop"
  from findBestOffset_spec[OF assms, of a b]
  obtain r where r: "findBestOffset a b hop = Some r"
    and alt: "(r = \<lparr>offsetMs = 0, score = None\<rparr> \<and> (\<forall>t. - ?M \<le> t \<and> t \<le> ?M \<longrightarrow> ?sc t = None))
      \<or> (\<exists>k. - ?M \<le> k \<and> k \<le> ?M \<and> r = \<lparr>offsetMs = real_of_int k * hop, score = ?sc k\<rparr>
            \<and> ?sc k \<noteq> None
            \<and> (\<forall>t. - ?M \<le> t \<and> t < k \<longrightarrow> ?sc t < ?sc k)
            \<and> (\<forall>t. k \<le> t \<and> t \<le> ?M \<longrightarrow> ?sc t \<le> ?sc k))"
    by blast
  from alt have "(\<forall>t. - ?M \<le> t \<and> t \<le> ?M \<longrightarrow> ?sc t \<le> score r)
     \<and> ((score r = None \<and> offsetMs r = 0)
         \<or> (\<exists>k. - ?M \<le> k \<and> k \<le> ?M \<and> offsetMs r = real_of_int k * hop
               \<and> score r = ?sc k \<and> ?sc k \<noteq> None))"
  proof
    assume A: "r = \<lparr>offsetMs = 0, score = None\<rparr> \<and> (\<forall>t. - ?M \<le> t \<and> t \<le> ?M \<longrightarrow> ?sc t = None)"
    then have "\<forall>t. - ?M \<le> t \<and> t \<le> ?M \<longrightarrow> ?sc t \<le> score r" by simp
    moreover have "score r = None \<and> offsetMs r = 0" using A by simp
    ultimately show ?thesis by blast
  next
    assume "\<exists>k. - ?M \<le> k \<and> k \<le> ?M \<and> r = \<lparr>offsetMs = real_of_int k * hop, score = ?sc k\<rparr>
            \<and> ?sc k \<noteq> None
            \<and> (\<forall>t. - ?M \<le> t \<and> t < k \<longrightarrow> ?sc t < ?sc k)
            \<and> (\<forall>t. k \<le> t \<and> t \<le> ?M \<longrightarrow> ?sc t \<le> ?sc k)"
    then obtain k where k: "- ?M \<le> k" "k \<le> ?M"
      "r = \<lparr>offsetMs = real_of_int k * hop, score = ?sc k\<rparr>" "?sc k \<noteq> None"
      and before: "\<forall>t. - ?M \<le> t \<and> t < k \<longrightarrow> ?sc t < ?sc k"
      and after: "\<forall>t. k \<le> t \<and> t \<le> ?M \<longrightarrow> ?sc t \<le> ?sc k" by blast
    have sr: "score r = ?sc k" "offsetMs r = real_of_int k * hop" using k(3) by simp_all
    have "\<forall>t. - ?M \<le> t \<and> t \<le> ?M \<longrightarrow> ?sc t \<le> score r"
    proof (intro allI impI)
      fix t assume t: "- ?M \<le> t \<and> t \<le> ?M"
      show "?sc t \<le> score r"
      proof (cases "t < k")
        case True
        then have "?sc t < ?sc k" using before t by blast
        then show ?thesis using sr by simp
      next
        case False
        then show ?thesis using after t sr by simp
      qed
    qed
    moreover have "\<exists>k. - ?M \<le> k \<and> k \<le> ?M \<and> offsetMs r = real_of_int k * hop
               \<and> score r = ?sc k \<and> ?sc k \<noteq> None"
      using k sr by (intro exI[of _ k]) simp
    ultimately show ?thesis by blast
  qed
  then show ?thesis using r by blast
qed

text \<open>
  Claim C8, amended.  For every hop other than 0 both calls return; the score of step
  \<open>-t\<close> with the arguments swapped is the score of step \<open>t\<close>; both calls return the same
  score; and when a single step of the window attains that score, the two offsets are
  exact opposites.
\<close>

theorem findBestOffset_swap_mirror:
  assumes hop0: "hop \<noteq> 0"
  shows "\<exists>r r'. findBestOffset a b hop = Some r \<and> findBestOffset b a hop = Some r'
     \<and> (\<forall>t. stepScore (normalizeSeries b) (normalizeSeries a) (- t)
              = stepScore (normalizeSeries a) (normalizeSeries b) t)
     \<and> score r' = score r
     \<and> ((\<forall>t t'. - maxStepsOf hop \<le> t \<and> t \<le> maxStepsOf hop
                \<and> - maxStepsOf hop \<le> t' \<and> t' \<le> maxStepsOf hop
                \<and> stepScore (normalizeSeries a) (normalizeSeries b) t = score r
                \<and> stepScore (normalizeSeries a) (normalizeSeries b) t' = score r
                \<longrightarrow> t = t')
          \<longrightarrow> offsetMs r' = - offsetMs r)"
proof -
  let ?sc = "stepScore (normalizeSeries a) (normalizeSeries b)"
  let ?sc' = "stepScore (normalizeSeries b) (normalizeSeries a)"
  let ?M = "maxStepsOf hop"
  have sym: "\<And>t. ?sc' (- t) = ?sc t" by (rule stepScore_swap)
  have sym': "\<And>t. ?sc' t = ?sc (- t)" by (rule stepScore_swap[symmetric])
  from findBestOffset_max[OF hop0, of a b]
  obtain r where r: "findBestOffset a b hop = Some r"
    and mx: "\<forall>t. - ?M \<le> t \<and> t \<le> ?M \<longrightarrow> ?sc t \<le> score r"
    and alt: "(score r = None \<and> offsetMs r = 0)
      \<or> (\<exists>k. - ?M \<le> k \<and> k \<le> ?M \<and> offsetMs r = real_of_int k * hop \<and> score r = ?sc k
             \<and> ?sc k \<noteq> None)"
    by blast
  from findBestOffset_max[OF hop0, of b a]
  obtain r' where r': "findBestOffset b a hop = Some r'"
    and mx': "\<forall>t. - ?M \<le> t \<and> t \<le> ?M \<longrightarrow> ?sc' t \<le> score r'"
    and alt': "(score r' = None \<and> offsetMs r' = 0)
      \<or> (\<exists>k. - ?M \<le> k \<and> k \<le> ?M \<and> offsetMs r' = real_of_int k * hop \<and> score r' = ?sc' k
             \<and> ?sc' k \<noteq> None)"
    by blast
  have le1: "score r' \<le> score r"
  proof (cases "score r' = None")
    case True
    then show ?thesis by simp
  next
    case False
    with alt' obtain k' where k': "- ?M \<le> k'" "k' \<le> ?M" "score r' = ?sc' k'" by blast
    have "- ?M \<le> - k' \<and> - k' \<le> ?M" using k'(1,2) by simp
    then have "?sc (- k') \<le> score r" using mx by blast
    then show ?thesis using k'(3) sym'[of k'] by simp
  qed
  have le2: "score r \<le> score r'"
  proof (cases "score r = None")
    case True
    then show ?thesis by simp
  next
    case False
    with alt obtain k where k: "- ?M \<le> k" "k \<le> ?M" "score r = ?sc k" by blast
    have "- ?M \<le> - k \<and> - k \<le> ?M" using k(1,2) by simp
    then have "?sc' (- k) \<le> score r'" using mx' by blast
    then show ?thesis using k(3) sym[of k] by simp
  qed
  have eq: "score r' = score r" using le1 le2 by simp
  have neg: "offsetMs r' = - offsetMs r"
    if u: "\<forall>t t'. - ?M \<le> t \<and> t \<le> ?M \<and> - ?M \<le> t' \<and> t' \<le> ?M
                \<and> ?sc t = score r \<and> ?sc t' = score r \<longrightarrow> t = t'"
  proof (cases "score r = None")
    case True
    then have "offsetMs r = 0" using alt by auto
    moreover have "offsetMs r' = 0" using alt' eq True by auto
    ultimately show ?thesis by simp
  next
    case False
    with alt obtain k where k: "- ?M \<le> k" "k \<le> ?M" "offsetMs r = real_of_int k * hop"
      "score r = ?sc k" by blast
    from False eq have "score r' \<noteq> None" by simp
    with alt' obtain k' where k': "- ?M \<le> k'" "k' \<le> ?M" "offsetMs r' = real_of_int k' * hop"
      "score r' = ?sc' k'" by blast
    have a1: "?sc (- k') = score r" using eq k'(4) sym'[of k'] by simp
    have a2: "- ?M \<le> - k' \<and> - k' \<le> ?M" using k'(1,2) by simp
    have "- ?M \<le> k \<and> k \<le> ?M \<and> - ?M \<le> - k' \<and> - k' \<le> ?M
            \<and> ?sc k = score r \<and> ?sc (- k') = score r"
      using k a1 a2 by simp
    then have "k = - k'" using u by blast
    then show ?thesis using k(3) k'(3) by simp
  qed
  have "findBestOffset a b hop = Some r \<and> findBestOffset b a hop = Some r'
     \<and> (\<forall>t. ?sc' (- t) = ?sc t)
     \<and> score r' = score r
     \<and> ((\<forall>t t'. - ?M \<le> t \<and> t \<le> ?M \<and> - ?M \<le> t' \<and> t' \<le> ?M
                \<and> ?sc t = score r \<and> ?sc t' = score r \<longrightarrow> t = t')
          \<longrightarrow> offsetMs r' = - offsetMs r)"
    using r r' sym eq neg by simp
  then show ?thesis by (intro exI)
qed

lemma norm_spikes:
  "normalizeSeries [0,0,5,0,0] = [-1/2,-1/2,2,-1/2,-1/2]"
  "normalizeSeries [0,0,0,5,0] = [-1/2,-1/2,-1/2,2,-1/2]"
  by (simp_all add: normalizeSeries_def Let_def power2_eq_square)

lemma spikes_scores:
  "list_all (\<lambda>t. t = 1 \<or> stepScore [-1/2,-1/2,2,-1/2,-1/2] [-1/2,-1/2,-1/2,2,-1/2] t \<le> Some (1/4))
     [-4..4]"
  by (simp add: stepScore_def overlapLen_def Let_def upto.simps upt_rec)

lemma spikes_score_one:
  "stepScore [-1/2,-1/2,2,-1/2,-1/2] [-1/2,-1/2,-1/2,2,-1/2] 1 = Some (19/16)"
  by (simp add: stepScore_def overlapLen_def Let_def upt_rec)

lemma spikes_other_steps:
  assumes "t \<noteq> 1"
  shows "stepScore (normalizeSeries [0,0,5,0,0]) (normalizeSeries [0,0,0,5,0]) t \<le> Some (1/4)"
proof -
  let ?A = "[-1/2,-1/2,2,-1/2,-1/2] :: real list"
  let ?B = "[-1/2,-1/2,-1/2,2,-1/2] :: real list"
  have "\<forall>t\<in>{- 4..4}. t = 1 \<or> stepScore ?A ?B t \<le> Some (1/4)"
    using spikes_scores unfolding list_all_iff set_upto .
  then have tab: "\<And>t. - 4 \<le> t \<Longrightarrow> t \<le> 4 \<Longrightarrow> t = 1 \<or> stepScore ?A ?B t \<le> Some (1/4)"
    by (simp only: atLeastAtMost_iff)
  show ?thesis
  proof (cases "- 4 \<le> t \<and> t \<le> 4")
    case True
    then show ?thesis unfolding norm_spikes using tab[of t] assms by blast
  next
    case False
    then have "stepScore ?A ?B t = None" by (intro stepScore_out_of_range) auto
    then show ?thesis unfolding norm_spikes by simp
  qed
qed

lemma spikes_offset:
  "findBestOffset [0,0,5,0,0] [0,0,0,5,0] 100 = Some \<lparr>offsetMs = 100, score = Some (19/16)\<rparr>"
proof -
  have "findBestOffset [0,0,5,0,0] [0,0,0,5,0] 100
          = Some \<lparr>offsetMs = real_of_int 1 * 100, score = Some (19/16)\<rparr>"
  proof (rule findBestOffset_eqI)
    show "(100::real) \<noteq> 0" by simp
    show "- maxStepsOf 100 \<le> 1" "1 \<le> maxStepsOf 100" by (simp_all add: maxStepsOf_100)
    show "stepScore (normalizeSeries [0,0,5,0,0]) (normalizeSeries [0,0,0,5,0]) 1 = Some (19/16)"
      unfolding norm_spikes by (rule spikes_score_one)
  next
    fix t :: int assume "t < 1"
    then have "stepScore (normalizeSeries [0,0,5,0,0]) (normalizeSeries [0,0,0,5,0]) t \<le> Some (1/4)"
      by (intro spikes_other_steps) simp
    moreover have "Some (1/4 :: real) < Some (19/16)" by simp
    ultimately show "stepScore (normalizeSeries [0,0,5,0,0]) (normalizeSeries [0,0,0,5,0]) t
                       < Some (19/16)"
      by (rule le_less_trans)
  next
    fix t :: int assume "1 \<le> t"
    show "stepScore (normalizeSeries [0,0,5,0,0]) (normalizeSeries [0,0,0,5,0]) t \<le> Some (19/16)"
    proof (cases "t = 1")
      case True
      have "stepScore (normalizeSeries [0,0,5,0,0]) (normalizeSeries [0,0,0,5,0]) 1 = Some (19/16)"
        unfolding norm_spikes by (rule spikes_score_one)
      then show ?thesis using True by simp
    next
      case False
      then have "stepScore (normalizeSeries [0,0,5,0,0]) (normalizeSeries [0,0,0,5,0]) t
                   \<le> Some (1/4)"
        by (rule spikes_other_steps)
      moreover have "Some (1/4 :: real) \<le> Some (19/16)" by simp
      ultimately show ?thesis by (rule order_trans)
    qed
  qed
  then show ?thesis by simp
qed

text \<open>
  Claim C8, witness of the amended statement.  Five samples with one spike, at the third
  sample in the first series and at the fourth in the second (normalised:
  \<open>-1/2, -1/2, 2, -1/2, -1/2\<close> and \<open>-1/2, -1/2, -1/2, 2, -1/2\<close>, exact in floating point).
  Step 1 scores \<open>19/16\<close> and every other step at most \<open>1/4\<close>, so a single step attains
  the maximum: the offsets are 100 and, with the arguments swapped, \<open>-100\<close>.
\<close>

theorem findBestOffset_swap_mirror_witness:
  "findBestOffset [0,0,5,0,0] [0,0,0,5,0] 100 = Some \<lparr>offsetMs = 100, score = Some (19/16)\<rparr>
   \<and> findBestOffset [0,0,0,5,0] [0,0,5,0,0] 100
       = Some \<lparr>offsetMs = - 100, score = Some (19/16)\<rparr>"
proof -
  let ?a = "[0,0,5,0,0] :: real list" and ?b = "[0,0,0,5,0] :: real list"
  let ?sc = "stepScore (normalizeSeries ?a) (normalizeSeries ?b)"
  have h: "(100::real) \<noteq> 0" by simp
  from findBestOffset_swap_mirror[OF h, of ?a ?b]
  obtain r r' where r: "findBestOffset ?a ?b 100 = Some r"
    and r': "findBestOffset ?b ?a 100 = Some r'"
    and sc: "score r' = score r"
    and mirror: "(\<forall>t t'. - maxStepsOf 100 \<le> t \<and> t \<le> maxStepsOf 100
                \<and> - maxStepsOf 100 \<le> t' \<and> t' \<le> maxStepsOf 100
                \<and> ?sc t = score r \<and> ?sc t' = score r \<longrightarrow> t = t')
          \<longrightarrow> offsetMs r' = - offsetMs r"
    by blast
  have req: "r = \<lparr>offsetMs = 100, score = Some (19/16)\<rparr>" using r spikes_offset by simp
  have only: "t = 1" if "?sc t = Some (19/16)" for t
  proof (rule ccontr)
    assume "t \<noteq> 1"
    then have "?sc t \<le> Some (1/4)" by (rule spikes_other_steps)
    then show False using that by simp
  qed
  have single: "\<forall>t t'. - maxStepsOf 100 \<le> t \<and> t \<le> maxStepsOf 100
                \<and> - maxStepsOf 100 \<le> t' \<and> t' \<le> maxStepsOf 100
                \<and> ?sc t = score r \<and> ?sc t' = score r \<longrightarrow> t = t'"
  proof (intro allI impI)
    fix t t' :: int
    assume "- maxStepsOf 100 \<le> t \<and> t \<le> maxStepsOf 100
                \<and> - maxStepsOf 100 \<le> t' \<and> t' \<le> maxStepsOf 100
                \<and> ?sc t = score r \<and> ?sc t' = score r"
    then have "?sc t = Some (19/16)" "?sc t' = Some (19/16)" using req by simp_all
    then have "t = 1" "t' = 1" by (auto intro: only)
    then show "t = t'" by simp
  qed
  have "offsetMs r' = - offsetMs r" using mirror single by blast
  then have "offsetMs r' = - 100" "score r' = Some (19/16)" using sc req by simp_all
  then have "r' = \<lparr>offsetMs = - 100, score = Some (19/16)\<rparr>" by (cases r') simp
  then show ?thesis using r' spikes_offset by simp
qed

section \<open>Properties of the subtitle-slot fitter\<close>

lemma measureClip_no_save: "measureClip env opts = (res, evs) \<Longrightarrow> filter isSaveCall evs = []"
  by (auto simp: measureClip_def Let_def split: promise.splits option.splits if_splits)

lemma measureClip_recovery_count:
  "measureClip env opts = (res, evs) \<Longrightarrow> length (filter isRecoveryCall evs) \<le> 1"
  by (auto simp: measureClip_def Let_def split: promise.splits option.splits if_splits)

lemma measureClip_recovery_only_on_error:
  "measureClip env opts = (res, evs) \<Longrightarrow> InvokeOnInvalidDuration \<in> set evs
   \<Longrightarrow> \<exists>dr. getAudioDuration env 0 (baseClipPath opts) = Resolves dr
          \<and> truthyString (durationError dr) \<and> onInvalidDuration opts \<noteq> None"
  by (auto simp: measureClip_def Let_def split: promise.splits option.splits if_splits)

lemma measureClip_path:
  "measureClip env opts = (Inr (finalPath, dr), evs)
   \<Longrightarrow> finalPath = baseClipPath opts
       \<or> (InvokeOnInvalidDuration \<in> set evs \<and> finalPath \<noteq> []
            \<and> onInvalidDuration opts = Some (Resolves finalPath))"
  by (auto simp: measureClip_def Let_def split: promise.splits option.splits if_splits)

lemma fitMeasured_no_recovery:
  "fitMeasured env opts finalPath dr = (res, evs) \<Longrightarrow> filter isRecoveryCall evs = []"
  by (auto simp: fitMeasured_def Let_def truthyNumber_def split: promise.splits option.splits if_splits)

lemma fitMeasured_within_tolerance:
  assumes "duration dr = Some d"
    "roundDouble env (roundDouble env (d * 1000)
        / max 1 (roundDouble env (endTime (subtitle opts) - startTime (subtitle opts))))
      \<le> roundDouble env (102 / 100)"
  shows "fitMeasured env opts finalPath dr = (Resolves finalPath, [])"
  using assms by (auto simp: fitMeasured_def Let_def truthyNumber_def)

lemma fitMeasured_no_gain:
  assumes "duration dr = Some d"
    "ratio = roundDouble env (roundDouble env (d * 1000)
        / max 1 (roundDouble env (endTime (subtitle opts) - startTime (subtitle opts))))"
    "min (roundDouble env (baseSpeed opts * ratio)) 4
       \<le> roundDouble env (baseSpeed opts + roundDouble env (1 / 100))"
  shows "fitMeasured env opts finalPath dr = (Resolves finalPath, [])"
  using assms by (auto simp: fitMeasured_def Let_def truthyNumber_def)

lemma fitMeasured_overrun:
  assumes "duration dr = Some d" "d \<noteq> 0" "roundDouble env (d * 1000) \<noteq> 0"
    "ratio = roundDouble env (roundDouble env (d * 1000)
        / max 1 (roundDouble env (endTime (subtitle opts) - startTime (subtitle opts))))"
    "roundDouble env (102 / 100) < ratio"
    "speed = min (roundDouble env (baseSpeed opts * ratio)) 4"
    "roundDouble env (baseSpeed opts + roundDouble env (1 / 100)) < speed"
    "svc = (defaultService opts)\<lparr>speedFactor := Some speed\<rparr>"
    "target = cacheDir opts @ ''/''
                @ hashKey opts (cacheKey opts @ ''|speed|'' @ numberToString env speed) @ ''.mp3''"
  shows "\<exists>res evs. fitMeasured env opts finalPath dr = (res, evs)
           \<and> filter isSaveCall evs = [CallSaveToFile (textForTts opts) target svc]
           \<and> (case saveToFile opts (textForTts opts) target svc of
                 Rejects m \<Rightarrow> res = Rejects m
               | Pending \<Rightarrow> res = Pending
               | Resolves fr \<Rightarrow>
                   (if \<not> truthyString (saveError fr) \<and> truthyString (savePath fr)
                    then \<exists>p. savePath fr = Some p \<and> res = Resolves p
                    else res = Resolves finalPath))"
  using assms
  by (auto simp: fitMeasured_def Let_def truthyNumber_def truthyString_def
           split: promise.splits option.splits)

lemma ensure_of_measure:
  "measureClip env opts = (Inr (finalPath, dr), evs) \<Longrightarrow> fitMeasured env opts finalPath dr = (res, evs')
   \<Longrightarrow> ensureClipFitsSubtitleSlot env opts = (res, evs @ evs')"
  by (simp add: ensureClipFitsSubtitleSlot_def)

lemma ensure_events:
  "\<exists>evs evs'. snd (ensureClipFitsSubtitleSlot env opts) = evs @ evs'
      \<and> (\<exists>res. measureClip env opts = (res, evs)) \<and> filter isRecoveryCall evs' = []
      \<and> (InvokeOnInvalidDuration \<in> set evs' \<longrightarrow> False)"
proof (cases "measureClip env opts")
  case (Pair res evs)
  show ?thesis
  proof (cases res)
    case (Inl m)
    then have "snd (ensureClipFitsSubtitleSlot env opts) = evs @ []"
      using Pair by (simp add: ensureClipFitsSubtitleSlot_def split: stopped.splits)
    then show ?thesis using Pair by (intro exI[of _ evs] exI[of _ "[]"]) simp
  next
    case (Inr pd)
    obtain fp dr where pd: "pd = (fp, dr)" by (cases pd)
    obtain r evs' where f: "fitMeasured env opts fp dr = (r, evs')" by (cases "fitMeasured env opts fp dr")
    have nr: "filter isRecoveryCall evs' = []" using f by (rule fitMeasured_no_recovery)
    have "InvokeOnInvalidDuration \<notin> set evs'"
    proof
      assume "InvokeOnInvalidDuration \<in> set evs'"
      then have "InvokeOnInvalidDuration \<in> set (filter isRecoveryCall evs')" by simp
      then show False using nr by simp
    qed
    moreover have "snd (ensureClipFitsSubtitleSlot env opts) = evs @ evs'"
      using ensure_of_measure[of env opts fp dr evs r evs'] Pair Inr pd f by simp
    ultimately show ?thesis using Pair nr by (intro exI[of _ evs] exI[of _ evs']) simp
  qed
qed

text \<open>
  Claim C9.  When the measured clip (the path and duration result that the measuring
  phase ends with) has a duration whose ratio to the slot, computed as the fitter
  computes it (\<open>duration * 1000\<close>, \<open>Math.max(1, endTime - startTime)\<close> and their quotient,
  each rounded to a double), is at most the double \<open>1.02\<close>, the fitter resolves with that
  clip's path and makes no synthesis request.  The measured clip is the base clip unless
  the recovery callback replaced it.
\<close>

theorem ensureClipFits_within_tolerance:
  assumes m: "measureClip env opts = (Inr (finalPath, dr), evs)"
    and d: "duration dr = Some d"
    and fit: "roundDouble env (roundDouble env (d * 1000)
                 / max 1 (roundDouble env (endTime (subtitle opts) - startTime (subtitle opts))))
               \<le> roundDouble env (102 / 100)"
  shows "ensureClipFitsSubtitleSlot env opts = (Resolves finalPath, evs)
     \<and> filter isSaveCall evs = []
     \<and> (finalPath = baseClipPath opts
         \<or> (InvokeOnInvalidDuration \<in> set evs
              \<and> onInvalidDuration opts = Some (Resolves finalPath)))"
proof -
  have "fitMeasured env opts finalPath dr = (Resolves finalPath, [])"
    using d fit by (rule fitMeasured_within_tolerance)
  then have "ensureClipFitsSubtitleSlot env opts = (Resolves finalPath, evs)"
    using ensure_of_measure[OF m] by simp
  moreover have "filter isSaveCall evs = []" using m by (rule measureClip_no_save)
  moreover have "finalPath = baseClipPath opts
         \<or> (InvokeOnInvalidDuration \<in> set evs
              \<and> onInvalidDuration opts = Some (Resolves finalPath))"
    using measureClip_path[OF m] by blast
  ultimately show ?thesis by simp
qed

lemma stub_measure:
  "measureClip (stubFitterEnv d) opts
     = (Inr (baseClipPath opts, \<lparr>duration = Some d, durationError = None\<rparr>),
        [QueryDuration (baseClipPath opts)])"
  by (simp add: measureClip_def Let_def stubFitterEnv_def truthyString_def)

lemmas stub_opts = stubOptions_def rejectingOptions_def succeedingOptions_def fastOptions_def

lemma stub_base:
  "baseClipPath stubOptions = ''/cache/base.mp3''"
  "baseClipPath rejectingOptions = ''/cache/base.mp3''"
  "baseClipPath succeedingOptions = ''/cache/base.mp3''"
  "baseClipPath fastOptions = ''/cache/base.mp3''"
  by (simp_all add: stub_opts)

text \<open>
  Claim C9, witness: a clip of one second in a slot of one second, and a clip whose
  duration is the double \<open>1.02\<close>, a little above \<open>102/100\<close>, in the same slot: the product
  with 1000 rounds to 1020 and the ratio to the double \<open>1.02\<close>, which is within the
  tolerance.
\<close>

theorem ensureClipFits_within_tolerance_witness:
  "ensureClipFitsSubtitleSlot (stubFitterEnv 1) stubOptions
     = (Resolves ''/cache/base.mp3'', [QueryDuration ''/cache/base.mp3''])
   \<and> ensureClipFitsSubtitleSlot (stubFitterEnv (2296835809958953 / 2251799813685248)) stubOptions
     = (Resolves ''/cache/base.mp3'', [QueryDuration ''/cache/base.mp3''])"
proof -
  have one: "ensureClipFitsSubtitleSlot (stubFitterEnv 1) stubOptions
     = (Resolves ''/cache/base.mp3'', [QueryDuration ''/cache/base.mp3''])"
  proof -
    let ?env = "stubFitterEnv 1"
    have a: "duration \<lparr>duration = Some (1::real), durationError = None\<rparr> = Some 1" by simp
    have b: "roundDouble ?env (roundDouble ?env (1 * 1000)
                 / max 1 (roundDouble ?env
                            (endTime (subtitle stubOptions) - startTime (subtitle stubOptions))))
               \<le> roundDouble ?env (102 / 100)"
      by (simp add: stub_opts stubFitterEnv_def stubRound_def)
    show ?thesis
      using ensureClipFits_within_tolerance[OF stub_measure a b] unfolding stub_base by blast
  qed
  have edge: "ensureClipFitsSubtitleSlot (stubFitterEnv (2296835809958953 / 2251799813685248))
                stubOptions
     = (Resolves ''/cache/base.mp3'', [QueryDuration ''/cache/base.mp3''])"
  proof -
    let ?d = "2296835809958953 / 2251799813685248 :: real"
    let ?env = "stubFitterEnv ?d"
    have a: "duration \<lparr>duration = Some ?d, durationError = None\<rparr> = Some ?d" by simp
    have b: "roundDouble ?env (roundDouble ?env (?d * 1000)
                 / max 1 (roundDouble ?env
                            (endTime (subtitle stubOptions) - startTime (subtitle stubOptions))))
               \<le> roundDouble ?env (102 / 100)"
      by (simp add: stub_opts stubFitterEnv_def stubRound_def)
    show ?thesis
      using ensureClipFits_within_tolerance[OF stub_measure a b] unfolding stub_base by blast
  qed
  show ?thesis using one edge by simp
qed

text \<open>
  Claim C7, as stated, fails when the request fails by rejecting its promise: nothing in
  the fitter catches the rejection, and the fitter's own promise rejects.  Here the clip
  lasts two seconds in a slot of one second and the synthesis rejects.
\<close>

theorem ensureClipFits_single_resynthesis_counterexample:
  "ensureClipFitsSubtitleSlot (stubFitterEnv 2) rejectingOptions
     = (Rejects ''connection lost'',
        [QueryDuration ''/cache/base.mp3'',
         CallSaveToFile ''hello'' ''/cache/h.mp3'' (stubService\<lparr>speedFactor := Some 2\<rparr>)])"
  by (simp add: ensureClipFitsSubtitleSlot_def measureClip_def fitMeasured_def Let_def
        rejectingOptions_def stubOptions_def stubFitterEnv_def stubRound_def truthyString_def
        truthyNumber_def)

text \<open>
  Claim C7, amended.  Let the ratio be the one the fitter computes from a measured
  duration other than 0 (\<open>duration * 1000\<close>, not 0 either, divided by
  \<open>Math.max(1, endTime - startTime)\<close>, each operation rounded to a double), above the
  double \<open>1.02\<close>, and let the speed be \<open>Math.min(baseSpeed * ratio, 4)\<close>, which is at
  most 4.  If the speed exceeds \<open>baseSpeed + 0.01\<close>, the whole call makes exactly one
  synthesis request, for the text, the path derived from that speed and the default
  service with that speed factor; it resolves with the measured clip's path when the
  request resolves with an error or without a path, resolves with the new path when
  the request resolves with one and no error, rejects when the request rejects and never
  settles when the request never settles.  If the speed does not exceed
  \<open>baseSpeed + 0.01\<close>, no request is made and the measured clip's path is the result.
\<close>

theorem ensureClipFits_single_resynthesis:
  assumes m: "measureClip env opts = (Inr (finalPath, dr), evs)"
    and d: "duration dr = Some d"
    and d0: "d \<noteq> 0"
    and ms0: "roundDouble env (d * 1000) \<noteq> 0"
    and ratio: "ratio = roundDouble env (roundDouble env (d * 1000)
                  / max 1 (roundDouble env (endTime (subtitle opts) - startTime (subtitle opts))))"
    and over: "roundDouble env (102 / 100) < ratio"
    and speed: "speed = min (roundDouble env (baseSpeed opts * ratio)) 4"
    and limit: "limit = roundDouble env (baseSpeed opts + roundDouble env (1 / 100))"
    and svc: "svc = (defaultService opts)\<lparr>speedFactor := Some speed\<rparr>"
    and target: "target = cacheDir opts @ ''/''
                   @ hashKey opts (cacheKey opts @ ''|speed|'' @ numberToString env speed)
                   @ ''.mp3''"
  shows "speed \<le> 4
     \<and> (limit < speed \<longrightarrow>
          (\<exists>res evs'. ensureClipFitsSubtitleSlot env opts = (res, evs')
              \<and> filter isSaveCall evs' = [CallSaveToFile (textForTts opts) target svc]
              \<and> (\<forall>fr. saveToFile opts (textForTts opts) target svc = Resolves fr
                        \<and> (truthyString (saveError fr) \<or> \<not> truthyString (savePath fr))
                     \<longrightarrow> res = Resolves finalPath)
              \<and> (\<forall>fr p. saveToFile opts (textForTts opts) target svc = Resolves fr
                        \<and> \<not> truthyString (saveError fr) \<and> savePath fr = Some p \<and> p \<noteq> []
                     \<longrightarrow> res = Resolves p)
              \<and> (\<forall>reason. saveToFile opts (textForTts opts) target svc = Rejects reason
                     \<longrightarrow> res = Rejects reason)
              \<and> (saveToFile opts (textForTts opts) target svc = Pending \<longrightarrow> res = Pending)))
     \<and> (speed \<le> limit \<longrightarrow>
          ensureClipFitsSubtitleSlot env opts = (Resolves finalPath, evs)
          \<and> filter isSaveCall evs = [])"
proof -
  have ns: "filter isSaveCall evs = []" using m by (rule measureClip_no_save)
  have p1: "speed \<le> 4" using speed by simp
  have p2: "\<exists>res evs'. ensureClipFitsSubtitleSlot env opts = (res, evs')
              \<and> filter isSaveCall evs' = [CallSaveToFile (textForTts opts) target svc]
              \<and> (\<forall>fr. saveToFile opts (textForTts opts) target svc = Resolves fr
                        \<and> (truthyString (saveError fr) \<or> \<not> truthyString (savePath fr))
                     \<longrightarrow> res = Resolves finalPath)
              \<and> (\<forall>fr p. saveToFile opts (textForTts opts) target svc = Resolves fr
                        \<and> \<not> truthyString (saveError fr) \<and> savePath fr = Some p \<and> p \<noteq> []
                     \<longrightarrow> res = Resolves p)
              \<and> (\<forall>reason. saveToFile opts (textForTts opts) target svc = Rejects reason
                     \<longrightarrow> res = Rejects reason)
              \<and> (saveToFile opts (textForTts opts) target svc = Pending \<longrightarrow> res = Pending)"
    if gain: "limit < speed"
  proof -
    have g: "roundDouble env (baseSpeed opts + roundDouble env (1 / 100)) < speed"
      using gain limit by simp
    from fitMeasured_overrun[OF d d0 ms0 ratio over speed g svc target, of finalPath]
    obtain res evs2 where f: "fitMeasured env opts finalPath dr = (res, evs2)"
      and s1: "filter isSaveCall evs2 = [CallSaveToFile (textForTts opts) target svc]"
      and out: "(case saveToFile opts (textForTts opts) target svc of
                 Rejects m \<Rightarrow> res = Rejects m
               | Pending \<Rightarrow> res = Pending
               | Resolves fr \<Rightarrow>
                   (if \<not> truthyString (saveError fr) \<and> truthyString (savePath fr)
                    then \<exists>p. savePath fr = Some p \<and> res = Resolves p
                    else res = Resolves finalPath))"
      by auto
    have e: "ensureClipFitsSubtitleSlot env opts = (res, evs @ evs2)"
      using ensure_of_measure[OF m f] .
    have c1: "filter isSaveCall (evs @ evs2) = [CallSaveToFile (textForTts opts) target svc]"
      using ns s1 by simp
    have c2: "\<forall>fr. saveToFile opts (textForTts opts) target svc = Resolves fr
                        \<and> (truthyString (saveError fr) \<or> \<not> truthyString (savePath fr))
                     \<longrightarrow> res = Resolves finalPath"
      using out by auto
    have c3: "\<forall>fr p. saveToFile opts (textForTts opts) target svc = Resolves fr
                        \<and> \<not> truthyString (saveError fr) \<and> savePath fr = Some p \<and> p \<noteq> []
                     \<longrightarrow> res = Resolves p"
      using out by (auto simp: truthyString_def)
    have c4: "\<forall>reason. saveToFile opts (textForTts opts) target svc = Rejects reason
                     \<longrightarrow> res = Rejects reason"
      using out by auto
    have c5: "saveToFile opts (textForTts opts) target svc = Pending \<longrightarrow> res = Pending"
      using out by auto
    show ?thesis using e c1 c2 c3 c4 c5 by blast
  qed
  have p3: "ensureClipFitsSubtitleSlot env opts = (Resolves finalPath, evs)"
    if nogain: "speed \<le> limit"
  proof -
    have "fitMeasured env opts finalPath dr = (Resolves finalPath, [])"
      using nogain limit speed by (intro fitMeasured_no_gain[OF d ratio]) simp
    then show ?thesis using ensure_of_measure[OF m] by simp
  qed
  show ?thesis using p1 p2 p3 ns by blast
qed

text \<open>
  Claim C7, witness of the amended statement, in a slot of one second.  A clip of two
  seconds at base speed 1 is requested once more at speed 2, a clip of five seconds at
  speed 4; the result is the base path when the request answers with an error, the new
  path when it succeeds, a rejection when it rejects.  At base speed 4 a clip of two
  seconds needs speed 4, which is no gain, and no request is made.
\<close>

theorem ensureClipFits_single_resynthesis_witness:
  "(\<exists>evs. ensureClipFitsSubtitleSlot (stubFitterEnv 2) stubOptions
             = (Resolves ''/cache/base.mp3'', evs)
      \<and> filter isSaveCall evs
          = [CallSaveToFile ''hello'' ''/cache/h.mp3'' (stubService\<lparr>speedFactor := Some 2\<rparr>)])
   \<and> (\<exists>evs. ensureClipFitsSubtitleSlot (stubFitterEnv 5) stubOptions
             = (Resolves ''/cache/base.mp3'', evs)
      \<and> filter isSaveCall evs
          = [CallSaveToFile ''hello'' ''/cache/h.mp3'' (stubService\<lparr>speedFactor := Some 4\<rparr>)])
   \<and> (\<exists>evs. ensureClipFitsSubtitleSlot (stubFitterEnv 2) succeedingOptions
             = (Resolves ''/cache/h.mp3'', evs)
      \<and> filter isSaveCall evs
          = [CallSaveToFile ''hello'' ''/cache/h.mp3'' (stubService\<lparr>speedFactor := Some 2\<rparr>)])
   \<and> (\<exists>evs. ensureClipFitsSubtitleSlot (stubFitterEnv 2) rejectingOptions
             = (Rejects ''connection lost'', evs)
      \<and> filter isSaveCall evs
          = [CallSaveToFile ''hello'' ''/cache/h.mp3'' (stubService\<lparr>speedFactor := Some 2\<rparr>)])
   \<and> ensureClipFitsSubtitleSlot (stubFitterEnv 2) fastOptions
         = (Resolves ''/cache/base.mp3'', [QueryDuration ''/cache/base.mp3''])"
proof -
  have failing: "\<exists>evs. ensureClipFitsSubtitleSlot (stubFitterEnv 2) stubOptions = (Resolves ''/cache/base.mp3'', evs)
      \<and> filter isSaveCall evs
          = [CallSaveToFile ''hello'' ''/cache/h.mp3'' (stubService\<lparr>speedFactor := Some 2\<rparr>)]"
  proof -
    let ?env = "stubFitterEnv 2"
    let ?svc = "stubService\<lparr>speedFactor := Some 2\<rparr>"
    have a: "duration \<lparr>duration = Some (2::real), durationError = None\<rparr> = Some 2" by simp
    have d0: "(2::real) \<noteq> 0" by simp
    have ms0: "roundDouble ?env (2 * 1000) \<noteq> 0"
      by (simp add: stubFitterEnv_def stubRound_def)
    have b: "(2::real) = roundDouble ?env (roundDouble ?env (2 * 1000)
                / max 1 (roundDouble ?env
                           (endTime (subtitle stubOptions) - startTime (subtitle stubOptions))))"
      by (simp add: stub_opts stubFitterEnv_def stubRound_def)
    have c: "roundDouble ?env (102 / 100) < (2::real)"
      by (simp add: stubFitterEnv_def stubRound_def)
    have e: "(2::real) = min (roundDouble ?env (baseSpeed stubOptions * 2)) 4"
      by (simp add: stub_opts stubFitterEnv_def stubRound_def)
    have l: "4548635623644201 / 4503599627370496 = roundDouble ?env (baseSpeed stubOptions + roundDouble ?env (1 / 100))"
      by (simp add: stub_opts stubFitterEnv_def stubRound_def)
    have f: "?svc = (defaultService stubOptions)\<lparr>speedFactor := Some 2\<rparr>"
      by (simp add: stub_opts)
    have g: "''/cache/h.mp3'' = cacheDir stubOptions @ ''/''
               @ hashKey stubOptions (cacheKey stubOptions @ ''|speed|'' @ numberToString ?env 2)
               @ ''.mp3''"
      by (simp add: stub_opts)
    have gain: "(4548635623644201 / 4503599627370496::real) < 2" by simp
    have tts: "textForTts stubOptions = ''hello''" by (simp add: stub_opts)
    from ensureClipFits_single_resynthesis[OF stub_measure a d0 ms0 b c e l f g] gain
    obtain res evs' where r: "ensureClipFitsSubtitleSlot ?env stubOptions = (res, evs')"
      and calls: "filter isSaveCall evs' = [CallSaveToFile (textForTts stubOptions) ''/cache/h.mp3'' ?svc]"
      and failure: "\<forall>fr. saveToFile stubOptions (textForTts stubOptions) ''/cache/h.mp3'' ?svc = Resolves fr
             \<and> (truthyString (saveError fr) \<or> \<not> truthyString (savePath fr))
             \<longrightarrow> res = Resolves (baseClipPath stubOptions)"
      and success: "\<forall>fr p. saveToFile stubOptions (textForTts stubOptions) ''/cache/h.mp3'' ?svc = Resolves fr
             \<and> \<not> truthyString (saveError fr) \<and> savePath fr = Some p \<and> p \<noteq> []
             \<longrightarrow> res = Resolves p"
      and rejection: "\<forall>reason. saveToFile stubOptions (textForTts stubOptions) ''/cache/h.mp3'' ?svc
                        = Rejects reason \<longrightarrow> res = Rejects reason"
      by blast
    have "saveToFile stubOptions (textForTts stubOptions) ''/cache/h.mp3'' ?svc
            = Resolves \<lparr>saveSuccess = None, savePath = None, saveError = Some ''quota exceeded''\<rparr>"
      by (simp add: stub_opts)
    then have "res = Resolves (baseClipPath stubOptions)"
      using failure by (simp add: truthyString_def)
    then have "res = Resolves ''/cache/base.mp3''" unfolding stub_base .
    then show ?thesis using r calls tts by simp
  qed
  have capped: "\<exists>evs. ensureClipFitsSubtitleSlot (stubFitterEnv 5) stubOptions = (Resolves ''/cache/base.mp3'', evs)
      \<and> filter isSaveCall evs
          = [CallSaveToFile ''hello'' ''/cache/h.mp3'' (stubService\<lparr>speedFactor := Some 4\<rparr>)]"
  proof -
    let ?env = "stubFitterEnv 5"
    let ?svc = "stubService\<lparr>speedFactor := Some 4\<rparr>"
    have a: "duration \<lparr>duration = Some (5::real), durationError = None\<rparr> = Some 5" by simp
    have d0: "(5::real) \<noteq> 0" by simp
    have ms0: "roundDouble ?env (5 * 1000) \<noteq> 0"
      by (simp add: stubFitterEnv_def stubRound_def)
    have b: "(5::real) = roundDouble ?env (roundDouble ?env (5 * 1000)
                / max 1 (roundDouble ?env
                           (endTime (subtitle stubOptions) - startTime (subtitle stubOptions))))"
      by (simp add: stub_opts stubFitterEnv_def stubRound_def)
    have c: "roundDouble ?env (102 / 100) < (5::real)"
      by (simp add: stubFitterEnv_def stubRound_def)
    have e: "(4::real) = min (roundDouble ?env (baseSpeed stubOptions * 5)) 4"
      by (simp add: stub_opts stubFitterEnv_def stubRound_def)
    have l: "4548635623644201 / 4503599627370496 = roundDouble ?env (baseSpeed stubOptions + roundDouble ?env (1 / 100))"
      by (simp add: stub_opts stubFitterEnv_def stubRound_def)
    have f: "?svc = (defaultService stubOptions)\<lparr>speedFactor := Some 4\<rparr>"
      by (simp add: stub_opts)
    have g: "''/cache/h.mp3'' = cacheDir stubOptions @ ''/''
               @ hashKey stubOptions (cacheKey stubOptions @ ''|speed|'' @ numberToString ?env 4)
               @ ''.mp3''"
      by (simp add: stub_opts)
    have gain: "(4548635623644201 / 4503599627370496::real) < 4" by simp
    have tts: "textForTts stubOptions = ''hello''" by (simp add: stub_opts)
    from ensureClipFits_single_resynthesis[OF stub_measure a d0 ms0 b c e l f g] gain
    obtain res evs' where r: "ensureClipFitsSubtitleSlot ?env stubOptions = (res, evs')"
      and calls: "filter isSaveCall evs' = [CallSaveToFile (textForTts stubOptions) ''/cache/h.mp3'' ?svc]"
      and failure: "\<forall>fr. saveToFile stubOptions (textForTts stubOptions) ''/cache/h.mp3'' ?svc = Resolves fr
             \<and> (truthyString (saveError fr) \<or> \<not> truthyString (savePath fr))
             \<longrightarrow> res = Resolves (baseClipPath stubOptions)"
      and success: "\<forall>fr p. saveToFile stubOptions (textForTts stubOptions) ''/cache/h.mp3'' ?svc = Resolves fr
             \<and> \<not> truthyString (saveError fr) \<and> savePath fr = Some p \<and> p \<noteq> []
             \<longrightarrow> res = Resolves p"
      and rejection: "\<forall>reason. saveToFile stubOptions (textForTts stubOptions) ''/cache/h.mp3'' ?svc
                        = Rejects reason \<longrightarrow> res = Rejects reason"
      by blast
    have "saveToFile stubOptions (textForTts stubOptions) ''/cache/h.mp3'' ?svc
            = Resolves \<lparr>saveSuccess = None, savePath = None, saveError = Some ''quota exceeded''\<rparr>"
      by (simp add: stub_opts)
    then have "res = Resolves (baseClipPath stubOptions)"
      using failure by (simp add: truthyString_def)
    then have "res = Resolves ''/cache/base.mp3''" unfolding stub_base .
    then show ?thesis using r calls tts by simp
  qed
  have succeeding: "\<exists>evs. ensureClipFitsSubtitleSlot (stubFitterEnv 2) succeedingOptions = (Resolves ''/cache/h.mp3'', evs)
      \<and> filter isSaveCall evs
          = [CallSaveToFile ''hello'' ''/cache/h.mp3'' (stubService\<lparr>speedFactor := Some 2\<rparr>)]"
  proof -
    let ?env = "stubFitterEnv 2"
    let ?svc = "stubService\<lparr>speedFactor := Some 2\<rparr>"
    have a: "duration \<lparr>duration = Some (2::real), durationError = None\<rparr> = Some 2" by simp
    have d0: "(2::real) \<noteq> 0" by simp
    have ms0: "roundDouble ?env (2 * 1000) \<noteq> 0"
      by (simp add: stubFitterEnv_def stubRound_def)
    have b: "(2::real) = roundDouble ?env (roundDouble ?env (2 * 1000)
                / max 1 (roundDouble ?env
                           (endTime (subtitle succeedingOptions) - startTime (subtitle succeedingOptions))))"
      by (simp add: stub_opts stubFitterEnv_def stubRound_def)
    have c: "roundDouble ?env (102 / 100) < (2::real)"
      by (simp add: stubFitterEnv_def stubRound_def)
    have e: "(2::real) = min (roundDouble ?env (baseSpeed succeedingOptions * 2)) 4"
      by (simp add: stub_opts stubFitterEnv_def stubRound_def)
    have l: "4548635623644201 / 4503599627370496 = roundDouble ?env (baseSpeed succeedingOptions + roundDouble ?env (1 / 100))"
      by (simp add: stub_opts stubFitterEnv_def stubRound_def)
    have f: "?svc = (defaultService succeedingOptions)\<lparr>speedFactor := Some 2\<rparr>"
      by (simp add: stub_opts)
    have g: "''/cache/h.mp3'' = cacheDir succeedingOptions @ ''/''
               @ hashKey succeedingOptions (cacheKey succeedingOptions @ ''|speed|'' @ numberToString ?env 2)
               @ ''.mp3''"
      by (simp add: stub_opts)
    have gain: "(4548635623644201 / 4503599627370496::real) < 2" by simp
    have tts: "textForTts succeedingOptions = ''hello''" by (simp add: stub_opts)
    from ensureClipFits_single_resynthesis[OF stub_measure a d0 ms0 b c e l f g] gain
    obtain res evs' where r: "ensureClipFitsSubtitleSlot ?env succeedingOptions = (res, evs')"
      and calls: "filter isSaveCall evs' = [CallSaveToFile (textForTts succeedingOptions) ''/cache/h.mp3'' ?svc]"
      and failure: "\<forall>fr. saveToFile succeedingOptions (textForTts succeedingOptions) ''/cache/h.mp3'' ?svc = Resolves fr
             \<and> (truthyString (saveError fr) \<or> \<not> truthyString (savePath fr))
             \<longrightarrow> res = Resolves (baseClipPath succeedingOptions)"
      and success: "\<forall>fr p. saveToFile succeedingOptions (textForTts succeedingOptions) ''/cache/h.mp3'' ?svc = Resolves fr
             \<and> \<not> truthyString (saveError fr) \<and> savePath fr = Some p \<and> p \<noteq> []
             \<longrightarrow> res = Resolves p"
      and rejection: "\<forall>reason. saveToFile succeedingOptions (textForTts succeedingOptions) ''/cache/h.mp3'' ?svc
                        = Rejects reason \<longrightarrow> res = Rejects reason"
      by blast
    have "saveToFile succeedingOptions (textForTts succeedingOptions) ''/cache/h.mp3'' ?svc
            = Resolves \<lparr>saveSuccess = Some True, savePath = Some ''/cache/h.mp3'',
                        saveError = None\<rparr>"
      by (simp add: stub_opts)
    then have "res = Resolves ''/cache/h.mp3''"
      using success by (simp add: truthyString_def)
    then show ?thesis using r calls tts by simp
  qed
  have rejecting: "\<exists>evs. ensureClipFitsSubtitleSlot (stubFitterEnv 2) rejectingOptions = (Rejects ''connection lost'', evs)
      \<and> filter isSaveCall evs
          = [CallSaveToFile ''hello'' ''/cache/h.mp3'' (stubService\<lparr>speedFactor := Some 2\<rparr>)]"
  proof -
    let ?env = "stubFitterEnv 2"
    let ?svc = "stubService\<lparr>speedFactor := Some 2\<rparr>"
    have a: "duration \<lparr>duration = Some (2::real), durationError = None\<rparr> = Some 2" by simp
    have d0: "(2::real) \<noteq> 0" by simp
    have ms0: "roundDouble ?env (2 * 1000) \<noteq> 0"
      by (simp add: stubFitterEnv_def stubRound_def)
    have b: "(2::real) = roundDouble ?env (roundDouble ?env (2 * 1000)
                / max 1 (roundDouble ?env
                           (endTime (subtitle rejectingOptions) - startTime (subtitle rejectingOptions))))"
      by (simp add: stub_opts stubFitterEnv_def stubRound_def)
    have c: "roundDouble ?env (102 / 100) < (2::real)"
      by (simp add: stubFitterEnv_def stubRound_def)
    have e: "(2::real) = min (roundDouble ?env (baseSpeed rejectingOptions * 2)) 4"
      by (simp add: stub_opts stubFitterEnv_def stubRound_def)
    have l: "4548635623644201 / 4503599627370496 = roundDouble ?env (baseSpeed rejectingOptions + roundDouble ?env (1 / 100))"
      by (simp add: stub_opts stubFitterEnv_def stubRound_def)
    have f: "?svc = (defaultService rejectingOptions)\<lparr>speedFactor := Some 2\<rparr>"
      by (simp add: stub_opts)
    have g: "''/cache/h.mp3'' = cacheDir rejectingOptions @ ''/''
               @ hashKey rejectingOptions (cacheKey rejectingOptions @ ''|speed|'' @ numberToString ?env 2)
               @ ''.mp3''"
      by (simp add: stub_opts)
    have gain: "(4548635623644201 / 4503599627370496::real) < 2" by simp
    have tts: "textForTts rejectingOptions = ''hello''" by (simp add: stub_opts)
    from ensureClipFits_single_resynthesis[OF stub_measure a d0 ms0 b c e l f g] gain
    obtain res evs' where r: "ensureClipFitsSubtitleSlot ?env rejectingOptions = (res, evs')"
      and calls: "filter isSaveCall evs' = [CallSaveToFile (textForTts rejectingOptions) ''/cache/h.mp3'' ?svc]"
      and failure: "\<forall>fr. saveToFile rejectingOptions (textForTts rejectingOptions) ''/cache/h.mp3'' ?svc = Resolves fr
             \<and> (truthyString (saveError fr) \<or> \<not> truthyString (savePath fr))
             \<longrightarrow> res = Resolves (baseClipPath rejectingOptions)"
      and success: "\<forall>fr p. saveToFile rejectingOptions (textForTts rejectingOptions) ''/cache/h.mp3'' ?svc = Resolves fr
             \<and> \<not> truthyString (saveError fr) \<and> savePath fr = Some p \<and> p \<noteq> []
             \<longrightarrow> res = Resolves p"
      and rejection: "\<forall>reason. saveToFile rejectingOptions (textForTts rejectingOptions) ''/cache/h.mp3'' ?svc
                        = Rejects reason \<longrightarrow> res = Rejects reason"
      by blast
    have "saveToFile rejectingOptions (textForTts rejectingOptions) ''/cache/h.mp3'' ?svc
            = Rejects ''connection lost''"
      by (simp add: stub_opts)
    then have "res = Rejects ''connection lost''"
      using rejection by simp
    then show ?thesis using r calls tts by simp
  qed
  have nogain: "ensureClipFitsSubtitleSlot (stubFitterEnv 2) fastOptions
         = (Resolves ''/cache/base.mp3'', [QueryDuration ''/cache/base.mp3''])"
  proof -
    let ?env = "stubFitterEnv 2"
    let ?svc = "stubService\<lparr>speedFactor := Some 4\<rparr>"
    have a: "duration \<lparr>duration = Some (2::real), durationError = None\<rparr> = Some 2" by simp
    have d0: "(2::real) \<noteq> 0" by simp
    have ms0: "roundDouble ?env (2 * 1000) \<noteq> 0"
      by (simp add: stubFitterEnv_def stubRound_def)
    have b: "(2::real) = roundDouble ?env (roundDouble ?env (2 * 1000)
                / max 1 (roundDouble ?env
                           (endTime (subtitle fastOptions) - startTime (subtitle fastOptions))))"
      by (simp add: stub_opts stubFitterEnv_def stubRound_def)
    have c: "roundDouble ?env (102 / 100) < (2::real)"
      by (simp add: stubFitterEnv_def stubRound_def)
    have e: "(4::real) = min (roundDouble ?env (baseSpeed fastOptions * 2)) 4"
      by (simp add: stub_opts stubFitterEnv_def stubRound_def)
    have l: "2257429313219461 / 562949953421312
               = roundDouble ?env (baseSpeed fastOptions + roundDouble ?env (1 / 100))"
      by (simp add: stub_opts stubFitterEnv_def stubRound_def)
    have f: "?svc = (defaultService fastOptions)\<lparr>speedFactor := Some 4\<rparr>"
      by (simp add: stub_opts)
    have g: "''/cache/h.mp3'' = cacheDir fastOptions @ ''/''
               @ hashKey fastOptions (cacheKey fastOptions @ ''|speed|'' @ numberToString ?env 4)
               @ ''.mp3''"
      by (simp add: stub_opts)
    have same: "(4::real) \<le> 2257429313219461 / 562949953421312" by simp
    show ?thesis
      using ensureClipFits_single_resynthesis[OF stub_measure a d0 ms0 b c e l f g] same
      unfolding stub_base by blast
  qed
  show ?thesis using failing capped succeeding rejecting nogain by blast
qed

text \<open>
  Claim C10.  A first query that resolves with duration 0 and no (truthy) error makes
  the fitter resolve with the base clip path after that single query, the recovery
  callback not being called; the callback is called only when the first query resolved
  with an error, and at most once.
\<close>

theorem ensureClipFits_recovery_only_on_error:
  "(\<forall>dr. getAudioDuration env 0 (baseClipPath opts) = Resolves dr
          \<and> \<not> truthyString (durationError dr) \<and> duration dr = Some 0
        \<longrightarrow> ensureClipFitsSubtitleSlot env opts
              = (Resolves (baseClipPath opts), [QueryDuration (baseClipPath opts)]))
   \<and> (InvokeOnInvalidDuration \<in> set (snd (ensureClipFitsSubtitleSlot env opts))
        \<longrightarrow> (\<exists>dr. getAudioDuration env 0 (baseClipPath opts) = Resolves dr
                 \<and> truthyString (durationError dr)))
   \<and> length (filter isRecoveryCall (snd (ensureClipFitsSubtitleSlot env opts))) \<le> 1"
proof -
  have p1: "ensureClipFitsSubtitleSlot env opts
              = (Resolves (baseClipPath opts), [QueryDuration (baseClipPath opts)])"
    if q: "getAudioDuration env 0 (baseClipPath opts) = Resolves dr"
      and ne: "\<not> truthyString (durationError dr)" and z: "duration dr = Some 0" for dr
  proof -
    have m: "measureClip env opts = (Inr (baseClipPath opts, dr), [QueryDuration (baseClipPath opts)])"
      using q ne by (simp add: measureClip_def Let_def)
    have "fitMeasured env opts (baseClipPath opts) dr = (Resolves (baseClipPath opts), [])"
      using z by (simp add: fitMeasured_def truthyNumber_def)
    then show ?thesis using ensure_of_measure[OF m] by simp
  qed
  from ensure_events[of env opts] obtain evs evs' res where
    ev: "snd (ensureClipFitsSubtitleSlot env opts) = evs @ evs'"
    and m: "measureClip env opts = (res, evs)"
    and nr: "filter isRecoveryCall evs' = []"
    and ni: "InvokeOnInvalidDuration \<in> set evs' \<longrightarrow> False"
    by blast
  have p2: "\<exists>dr. getAudioDuration env 0 (baseClipPath opts) = Resolves dr
                 \<and> truthyString (durationError dr)"
    if "InvokeOnInvalidDuration \<in> set (snd (ensureClipFitsSubtitleSlot env opts))"
  proof -
    from that ev ni have "InvokeOnInvalidDuration \<in> set evs" by auto
    from measureClip_recovery_only_on_error[OF m this] show ?thesis by blast
  qed
  have p3: "length (filter isRecoveryCall (snd (ensureClipFitsSubtitleSlot env opts))) \<le> 1"
    using ev nr measureClip_recovery_count[OF m] by simp
  show ?thesis using p1 p2 p3 by blast
qed

lemma failing_query_run:
  "ensureClipFitsSubtitleSlot failingQueryEnv callbackOptions
     = (Resolves ''/cache/fresh.mp3'',
        [QueryDuration ''/cache/base.mp3'', InvokeOnInvalidDuration,
         QueryDuration ''/cache/fresh.mp3''])"
  by (simp add: ensureClipFitsSubtitleSlot_def measureClip_def fitMeasured_def Let_def
        callbackOptions_def stubOptions_def failingQueryEnv_def stubRound_def truthyString_def
        truthyNumber_def)

text \<open>
  Claim C10, witness, with the recovery callback supplied in both runs.  When the first
  query answers 0 without an error, the callback is not called and the base path is the
  result.  When the first query answers with an error, the callback is called once, the
  fresh clip is measured, and the first answer is the one with the error field.
\<close>

theorem ensureClipFits_recovery_only_on_error_witness:
  "ensureClipFitsSubtitleSlot (stubFitterEnv 0) callbackOptions
     = (Resolves ''/cache/base.mp3'', [QueryDuration ''/cache/base.mp3''])
   \<and> snd (ensureClipFitsSubtitleSlot failingQueryEnv callbackOptions)
     = [QueryDuration ''/cache/base.mp3'', InvokeOnInvalidDuration,
        QueryDuration ''/cache/fresh.mp3'']
   \<and> (\<exists>dr. getAudioDuration failingQueryEnv 0 ''/cache/base.mp3'' = Resolves dr
          \<and> truthyString (durationError dr))
   \<and> length (filter isRecoveryCall
        (snd (ensureClipFitsSubtitleSlot failingQueryEnv callbackOptions))) \<le> 1"
proof -
  let ?dr = "\<lparr>duration = Some (0::real), durationError = None\<rparr>"
  have base: "baseClipPath callbackOptions = ''/cache/base.mp3''"
    by (simp add: callbackOptions_def stubOptions_def)
  have supplied: "onInvalidDuration callbackOptions = Some (Resolves ''/cache/fresh.mp3'')"
    by (simp add: callbackOptions_def)
  have q0: "getAudioDuration (stubFitterEnv 0) 0 (baseClipPath callbackOptions) = Resolves ?dr
          \<and> \<not> truthyString (durationError ?dr) \<and> duration ?dr = Some 0"
    by (simp add: stubFitterEnv_def truthyString_def)
  have a: "ensureClipFitsSubtitleSlot (stubFitterEnv 0) callbackOptions
     = (Resolves ''/cache/base.mp3'', [QueryDuration ''/cache/base.mp3''])"
    using ensureClipFits_recovery_only_on_error[of "stubFitterEnv 0" callbackOptions] q0 base
    by metis
  have b: "snd (ensureClipFitsSubtitleSlot failingQueryEnv callbackOptions)
     = [QueryDuration ''/cache/base.mp3'', InvokeOnInvalidDuration,
        QueryDuration ''/cache/fresh.mp3'']"
    by (simp add: failing_query_run)
  then have called: "InvokeOnInvalidDuration
      \<in> set (snd (ensureClipFitsSubtitleSlot failingQueryEnv callbackOptions))"
    by simp
  have c: "\<exists>dr. getAudioDuration failingQueryEnv 0 ''/cache/base.mp3'' = Resolves dr
          \<and> truthyString (durationError dr)"
    using ensureClipFits_recovery_only_on_error[of failingQueryEnv callbackOptions] called base
    by metis
  have e: "length (filter isRecoveryCall
        (snd (ensureClipFitsSubtitleSlot failingQueryEnv callbackOptions))) \<le> 1"
    using ensureClipFits_recovery_only_on_error[of failingQueryEnv callbackOptions] by blast
  show ?thesis using a b c e by blast
qed

section \<open>Properties of the alignment run\<close>

lemmas run_defs = alignmentRun_def runPairs.simps processPair_def extractAudioToWav_def
  checkFfmpeg_def mkdtempSync_def sendLog_def deriveOutputPath_def computeEnergyProfile_def
  muxAligned_def cleanupPair_def rmSync_def errorResult_def path_join_def path_dirname_def
  path_basename_def path_resolve_def path_extname_def
  stubAlignEnv_def stubRunOptions_def emptyWorld_def Let_def

lemma run_video_undecodable:
  "alignmentRun (stubAlignEnv True (\<lambda>p. False) (\<lambda>p. []) (Some 0)) stubRunOptions emptyWorld
   = (Returned (errorResult ''Failed to extract audio: no audio stream'' [''Aligning: v.mp4 with a.mp3'']),
      \<lparr>tmpDirs = [''/tmp/align-audio-x''],
       calls = [FfmpegVersion, FfmpegVersion, FfmpegExtract ''/in/v.mp4'' ''/tmp/align-audio-x/audio.wav''],
       made = 1, sent = []\<rparr>)"
  by (simp add: run_defs)

lemma run_too_short:
  "alignmentRun (stubAlignEnv True (\<lambda>p. True) (\<lambda>p. [0, 1, 0, 0]) (Some 0)) stubRunOptions emptyWorld
   = (Returned (errorResult ''Could not analyze audio energy (files too short or empty).''
                  [''Aligning: v.mp4 with a.mp3'']),
      \<lparr>tmpDirs = [''/tmp/align-audio-x'', ''/tmp/align-audio-xx''],
       calls = [FfmpegVersion, FfmpegVersion, FfmpegExtract ''/in/v.mp4'' ''/tmp/align-audio-x/audio.wav'',
                FfmpegVersion, FfmpegExtract ''/in/a.mp3'' ''/tmp/align-audio-xx/audio.wav''],
       made = 2, sent = []\<rparr>)"
  by (simp add: run_defs)

lemma run_empty_audio:
  "alignmentRun (stubAlignEnv True (\<lambda>p. True) (\<lambda>p. []) (Some 0))
     (stubRunOptions\<lparr>audioPaths := []\<rparr>) emptyWorld
   = (Returned (errorResult ''Video and audio inputs are required.'' []),
      emptyWorld\<lparr>calls := [FfmpegVersion]\<rparr>)"
  by (simp add: run_defs)


lemma run_mux_fails:
  "tmpDirs (snd (alignmentRun (stubAlignEnv True (\<lambda>p. True) (\<lambda>p. [0, 1, 0, 0, 0, 0]) (Some 1))
                   stubRunOptions emptyWorld))
     = [''/tmp/align-audio-x'', ''/tmp/align-audio-xx'']
   \<and> (\<exists>ls. fst (alignmentRun (stubAlignEnv True (\<lambda>p. True) (\<lambda>p. [0, 1, 0, 0, 0, 0]) (Some 1))
                   stubRunOptions emptyWorld)
            = Returned (errorResult ''FFmpeg exited with code 1'' ls))"
  by (simp add: run_defs findBestOffset_def)

lemma run_succeeds:
  "tmpDirs (snd (alignmentRun (stubAlignEnv True (\<lambda>p. True) (\<lambda>p. [0, 1, 0, 0, 0, 0]) (Some 0))
                   stubRunOptions emptyWorld))
     = []
   \<and> (\<exists>r. fst (alignmentRun (stubAlignEnv True (\<lambda>p. True) (\<lambda>p. [0, 1, 0, 0, 0, 0]) (Some 0))
                   stubRunOptions emptyWorld)
            = Returned r \<and> resultSuccess r = Some True)"
  by (simp add: run_defs findBestOffset_def)

text \<open>
  Claim C3, amended.  A run with an empty video list or an empty audio list makes exactly
  one tool invocation, the availability probe \<open>ffmpeg -version\<close>, and changes nothing
  else (no decoding, no mux, no temporary directory, no log line).  It returns the input
  error when the probe succeeds and the ffmpeg error when the probe fails.
\<close>

theorem alignmentRun_empty_inputs:
  assumes "videoPaths opts = [] \<or> audioPaths opts = []"
  shows "alignmentRun env opts w
     = (Returned (errorResult
          (if versionOk env (length (calls w)) then ''Video and audio inputs are required.''
           else ''FFmpeg is required for alignment.'') []),
        w\<lparr>calls := calls w @ [FfmpegVersion]\<rparr>)"
  using assms by (auto simp: alignmentRun_def checkFfmpeg_def Let_def)

text \<open>Claim C3, witness of the amended statement: an empty video list.\<close>

theorem alignmentRun_empty_inputs_witness:
  "alignmentRun (stubAlignEnv True (\<lambda>p. True) (\<lambda>p. []) (Some 0))
     (stubRunOptions\<lparr>videoPaths := []\<rparr>) emptyWorld
   = (Returned (errorResult ''Video and audio inputs are required.'' []),
      emptyWorld\<lparr>calls := [FfmpegVersion]\<rparr>)"
proof -
  have "videoPaths (stubRunOptions\<lparr>videoPaths := []\<rparr>) = []
          \<or> audioPaths (stubRunOptions\<lparr>videoPaths := []\<rparr>) = []" by simp
  from alignmentRun_empty_inputs[OF this, of "stubAlignEnv True (\<lambda>p. True) (\<lambda>p. []) (Some 0)" emptyWorld]
  show ?thesis by (simp add: stubAlignEnv_def emptyWorld_def)
qed

lemma sendLog_world:
  "calls (snd (sendLog env opts m sw)) = calls (snd sw)
   \<and> tmpDirs (snd (sendLog env opts m sw)) = tmpDirs (snd sw)
   \<and> logs (fst (sendLog env opts m sw)) = logs (fst sw) @ [m]"
  by (cases sw) (simp add: sendLog_def Let_def split: option.splits)

lemma extract_no_mux:
  "filter isMux (calls (snd (extractAudioToWav env p w))) = filter isMux (calls w)"
  by (simp add: extractAudioToWav_def checkFfmpeg_def mkdtempSync_def Let_def split: prod.splits)

text \<open>
  How the loop sits in the handler: with ffmpeg available and both lists non-empty the
  handler's result is the loop's, started at pair 0; an iteration that does not leave
  the handler hands its state to the next one.
\<close>

lemma alignmentRun_enters_loop:
  assumes "versionOk env (length (calls w0))" "videoPaths opts \<noteq> []" "audioPaths opts \<noteq> []"
  shows "\<exists>providedOutput baseDir w2.
           alignmentRun env opts w0
             = runPairs env opts (sort (videoPaths opts)) (sort (audioPaths opts))
                 (min (length (videoPaths opts)) (length (audioPaths opts))) providedOutput baseDir 0
                 (\<lparr>logs = [], lastOutput = None, reportData = [], allOutputs = []\<rparr>, w2)"
  using assms by (auto simp: alignmentRun_def checkFfmpeg_def Let_def split: prod.splits)

lemma runPairs_next:
  assumes "i < pairs"
    and "processPair env opts videos audios pairs providedOutput baseDir i sw = (Inr st, w)"
  shows "runPairs env opts videos audios pairs providedOutput baseDir i sw
           = runPairs env opts videos audios pairs providedOutput baseDir (i + 1) (st, w)"
  using assms by (subst runPairs.simps) simp

text \<open>
  Claim C6.  The loop, entered at a pair \<open>i\<close> in any state: if both extractions succeed
  and both energy lists are computed, and one of them has fewer than 5 values, the run
  returns the error about files too short or empty; the only log line added is the
  \<open>Aligning\<close> line (the line of the offset search is not), and no mux invocation is
  added to the tool calls.
\<close>

theorem runPairs_short_profile_aborts:
  fixes env opts videos audios pairs providedOutput baseDir i sw
  defines "video \<equiv> path_resolve (videos ! i)"
    and "audio \<equiv> path_resolve (audios ! i)"
  defines "sw1 \<equiv> sendLog env opts
             (''Aligning: '' @ path_basename video @ '' with '' @ path_basename audio) sw"
  defines "ve \<equiv> extractAudioToWav env video (snd sw1)"
  defines "ae \<equiv> extractAudioToWav env audio (snd ve)"
  assumes i: "i < pairs"
    and v: "fst ve = Inr videoWav"
    and a: "fst ae = Inr audioWav"
    and pv: "energiesOf env videoWav = Inr videoEnergies"
    and pa: "energiesOf env audioWav = Inr audioEnergies"
    and short: "length videoEnergies < 5 \<or> length audioEnergies < 5"
  shows "runPairs env opts videos audios pairs providedOutput baseDir i sw
     = (Returned (errorResult ''Could not analyze audio energy (files too short or empty).''
                    (logs (fst sw1))), snd ae)
     \<and> filter isMux (calls (snd ae)) = filter isMux (calls (snd sw))
     \<and> logs (fst sw1) = logs (fst sw)
          @ [''Aligning: '' @ path_basename video @ '' with '' @ path_basename audio]"
proof -
  obtain st1 w1 where sw1: "sw1 = (st1, w1)" by (cases sw1)
  obtain w2 where ve: "ve = (Inr videoWav, w2)" using v by (cases ve) simp
  obtain w3 where ae: "ae = (Inr audioWav, w3)" using a by (cases ae) simp
  have s1: "sendLog env opts
             (''Aligning: '' @ path_basename (path_resolve (videos ! i)) @ '' with ''
                @ path_basename (path_resolve (audios ! i))) sw = (st1, w1)"
    using sw1 by (simp add: sw1_def video_def audio_def)
  have e1: "extractAudioToWav env (path_resolve (videos ! i)) w1 = (Inr videoWav, w2)"
    using ve sw1 by (simp add: ve_def video_def)
  have e2: "extractAudioToWav env (path_resolve (audios ! i)) w2 = (Inr audioWav, w3)"
    using ae ve by (simp add: ae_def audio_def)
  have pp: "processPair env opts videos audios pairs providedOutput baseDir i sw
     = (Inl (Returned (errorResult ''Could not analyze audio energy (files too short or empty).''
                    (logs st1))), w3)"
    using short s1 e1 e2 by (simp add: processPair_def Let_def computeEnergyProfile_def pv pa)
  have r: "runPairs env opts videos audios pairs providedOutput baseDir i sw
     = (Returned (errorResult ''Could not analyze audio energy (files too short or empty).''
                    (logs st1)), w3)"
    using i pp by (subst runPairs.simps) simp
  have m1: "filter isMux (calls w3) = filter isMux (calls w2)"
    using extract_no_mux[of env "path_resolve (audios ! i)" w2] e2 by simp
  have m2: "filter isMux (calls w2) = filter isMux (calls w1)"
    using extract_no_mux[of env "path_resolve (videos ! i)" w1] e1 by simp
  have m3: "calls w1 = calls (snd sw)" and l: "logs st1 = logs (fst sw)
          @ [''Aligning: '' @ path_basename video @ '' with '' @ path_basename audio]"
    using sendLog_world[of env opts "''Aligning: '' @ path_basename (path_resolve (videos ! i))
             @ '' with '' @ path_basename (path_resolve (audios ! i))" sw]
    unfolding s1 by (simp_all add: video_def audio_def)
  show ?thesis using r m1 m2 m3 l sw1 ae by simp
qed



text \<open>Claim C6, witness: both decoded files give four energy values.\<close>

theorem runPairs_short_profile_aborts_witness:
  "runPairs (stubAlignEnv True (\<lambda>p. True) (\<lambda>p. [0, 1, 0, 0]) (Some 0)) stubRunOptions
     [''/in/v.mp4''] [''/in/a.mp3''] 1 (Some ''/out/final.mp4'') ''/out'' 0
     (\<lparr>logs = [], lastOutput = None, reportData = [], allOutputs = []\<rparr>, emptyWorld)
   = (Returned (errorResult ''Could not analyze audio energy (files too short or empty).''
                  [''Aligning: v.mp4 with a.mp3'']),
      \<lparr>tmpDirs = [''/tmp/align-audio-x'', ''/tmp/align-audio-xx''],
       calls = [FfmpegVersion, FfmpegExtract ''/in/v.mp4'' ''/tmp/align-audio-x/audio.wav'',
                FfmpegVersion, FfmpegExtract ''/in/a.mp3'' ''/tmp/align-audio-xx/audio.wav''],
       made = 2, sent = []\<rparr>)"
proof -
  let ?env = "stubAlignEnv True (\<lambda>p. True) (\<lambda>p. [0, 1, 0, 0]) (Some 0)"
  let ?sw = "(\<lparr>logs = [], lastOutput = None, reportData = [], allOutputs = []\<rparr>, emptyWorld)"
  let ?m = "''Aligning: '' @ path_basename (path_resolve ([''/in/v.mp4''] ! 0)) @ '' with ''
              @ path_basename (path_resolve ([''/in/a.mp3''] ! 0))"
  let ?ve = "extractAudioToWav ?env (path_resolve ([''/in/v.mp4''] ! 0))
               (snd (sendLog ?env stubRunOptions ?m ?sw))"
  let ?ae = "extractAudioToWav ?env (path_resolve ([''/in/a.mp3''] ! 0)) (snd ?ve)"
  have i: "(0::nat) < 1" by simp
  have v: "fst ?ve = Inr ''/tmp/align-audio-x/audio.wav''"
    by (simp add: run_defs)
  have a: "fst ?ae = Inr ''/tmp/align-audio-xx/audio.wav''"
    by (simp add: run_defs)
  have pv: "energiesOf ?env ''/tmp/align-audio-x/audio.wav'' = Inr [0, 1, 0, 0]"
    and pa: "energiesOf ?env ''/tmp/align-audio-xx/audio.wav'' = Inr [0, 1, 0, 0]"
    by (simp_all add: stubAlignEnv_def)
  have short: "length [0, 1, 0, 0 :: real] < 5 \<or> length [0, 1, 0, 0 :: real] < 5" by simp
  from runPairs_short_profile_aborts[where providedOutput = "Some ''/out/final.mp4''" and baseDir = "''/out''", OF i v a pv pa short]
  show ?thesis by (simp add: run_defs)
qed

text \<open>
  Claim C3, as stated, fails: with an empty audio list the handler has started ffmpeg
  once (the availability probe of its first line) when it returns the input error, and
  when that probe fails the error returned is not the input error.
\<close>

theorem alignmentRun_empty_inputs_counterexample:
  "alignmentRun (stubAlignEnv True (\<lambda>p. True) (\<lambda>p. []) (Some 0))
     (stubRunOptions\<lparr>audioPaths := []\<rparr>) emptyWorld
   = (Returned (errorResult ''Video and audio inputs are required.'' []),
      emptyWorld\<lparr>calls := [FfmpegVersion]\<rparr>)
   \<and> alignmentRun (stubAlignEnv False (\<lambda>p. True) (\<lambda>p. []) (Some 0))
     (stubRunOptions\<lparr>audioPaths := []\<rparr>) emptyWorld
   = (Returned (errorResult ''FFmpeg is required for alignment.'' []),
      emptyWorld\<lparr>calls := [FfmpegVersion]\<rparr>)"
  by (simp add: run_defs)

text \<open>
  Claim C1 does not hold of the handler: the directories are removed at the end of a
  successful iteration only.  With one pair and a given output path, the temporary
  directories that exist when the run returns are: one after a failed extraction of the
  video, two after a too short profile, two after a failed mux, and none after success.
\<close>

theorem alignmentRun_leaves_temp_dirs:
  "tmpDirs (snd (alignmentRun (stubAlignEnv True (\<lambda>p. False) (\<lambda>p. []) (Some 0))
                   stubRunOptions emptyWorld))
     = [''/tmp/align-audio-x'']
   \<and> tmpDirs (snd (alignmentRun (stubAlignEnv True (\<lambda>p. True) (\<lambda>p. [0, 1, 0, 0]) (Some 0))
                   stubRunOptions emptyWorld))
     = [''/tmp/align-audio-x'', ''/tmp/align-audio-xx'']
   \<and> tmpDirs (snd (alignmentRun (stubAlignEnv True (\<lambda>p. True) (\<lambda>p. [0, 1, 0, 0, 0, 0]) (Some 1))
                   stubRunOptions emptyWorld))
     = [''/tmp/align-audio-x'', ''/tmp/align-audio-xx'']
   \<and> tmpDirs (snd (alignmentRun (stubAlignEnv True (\<lambda>p. True) (\<lambda>p. [0, 1, 0, 0, 0, 0]) (Some 0))
                   stubRunOptions emptyWorld))
     = []"
  using run_video_undecodable run_too_short run_mux_fails run_succeeds by simp

end
